theory Spec2Isabelle
  imports Complex_Main "HOL-Library.Sublist"
begin

section \<open>Story Mode: a shallow embedding of the arc progression engine\<close>

text \<open>
  The development follows \<^verbatim>\<open>src/index.js\<close>: the phase calculation
  (\<^verbatim>\<open>getPhaseInfo\<close>), the progress template substitution and the composition of the
  injected text (\<^verbatim>\<open>buildPhaseInjection\<close>, \<^verbatim>\<open>buildFullInjection\<close>), the per-chat state
  (\<^verbatim>\<open>getChatStoryState\<close>, \<^verbatim>\<open>saveChatStoryState\<close>) and the handlers of the host's
  lifecycle events.

  Step counters and arc lengths are JavaScript numbers that only ever hold integers (they
  start at integer defaults, are incremented by one, or come from \<^verbatim>\<open>parseInt\<close>); they are
  modelled as \<^typ>\<open>int\<close>. The increment of the step counter, the phase boundaries
  \<^verbatim>\<open>Math.floor(arcLength * 0.33)\<close> and the percentages
  \<^verbatim>\<open>Math.round((a / b) * 100)\<close> are computed as the source computes them: the exact
  result of the operation is rounded to the nearest binary64 value, ties to even.
  Strings are \<^typ>\<open>string\<close>; console logging, toasts and DOM updates are not modelled.

  A handler runs from its signal to its end without another handler in between; the
  waits of the source (\<^verbatim>\<open>setTimeout\<close>) pass no time in the model, and
  \<^verbatim>\<open>saveMetadata\<close> always succeeds. What the host's text generation returns, and
  whether it throws, is a parameter.
\<close>

subsection \<open>JavaScript numbers\<close>

text \<open>
  \<open>toDouble q\<close> is the binary64 value nearest to the rational \<open>q\<close> (53 significant bits,
  ties to even). Exponent overflow and subnormal results are outside the model: the
  quantities rounded here are products and quotients of step counts.
\<close>

definition pow2 :: "int \<Rightarrow> rat" where
  "pow2 e = (if 0 \<le> e then 2 ^ nat e else 1 / 2 ^ nat (- e))"

definition roundHalfEven :: "rat \<Rightarrow> int" where
  "roundHalfEven r =
     (let f = \<lfloor>r\<rfloor>; d = r - of_int f
      in if d < 1 / 2 then f else if 1 / 2 < d then f + 1 else if even f then f else f + 1)"

function bitLength :: "int \<Rightarrow> int" where
  "bitLength n = (if n \<le> 0 then 0 else 1 + bitLength (n div 2))"
  by pat_completeness auto
termination
  by (relation "measure nat") auto

declare bitLength.simps [simp del]

text \<open>\<open>ilog2 q\<close> is \<open>\<lfloor>log\<^sub>2 q\<rfloor>\<close> for a positive rational \<open>q\<close>.\<close>

definition ilog2 :: "rat \<Rightarrow> int" where
  "ilog2 q =
     (let (a, b) = quotient_of q;
          e0 = bitLength a - bitLength b
      in if pow2 e0 \<le> q then e0 else e0 - 1)"

definition toDouble :: "rat \<Rightarrow> rat" where
  "toDouble q =
     (if q = 0 then 0
      else let m = \<bar>q\<bar>; e = ilog2 m - 52;
               r = of_int (roundHalfEven (m / pow2 e)) * pow2 e
           in if q < 0 then - r else r)"

text \<open>
  The result of \<^verbatim>\<open>Math.round\<close> on a quotient: an integer, or one of the three
  non-finite numbers a division by zero produces.
\<close>

datatype jsnum = Num int | NaN | PosInf | NegInf

text \<open>\<^verbatim>\<open>Math.floor(n * c)\<close> for an integer \<open>n\<close> and a decimal literal \<open>c\<close>.\<close>

definition floorTimes :: "int \<Rightarrow> rat \<Rightarrow> int" where
  "floorTimes n c = \<lfloor>toDouble (of_int n * toDouble c)\<rfloor>"

text \<open>
  \<^verbatim>\<open>Math.round((p / t) * 100)\<close> for integers \<open>p\<close> and \<open>t\<close>. \<^verbatim>\<open>Math.round\<close> rounds
  halves towards \<open>+\<infinity>\<close>. A zero divisor gives \<^verbatim>\<open>NaN\<close> for \<open>0 / 0\<close> and an infinity
  otherwise; both pass through the multiplication and the rounding unchanged.
\<close>

definition jsPercent :: "int \<Rightarrow> int \<Rightarrow> jsnum" where
  "jsPercent p t =
     (if t = 0 then (if p = 0 then NaN else if 0 < p then PosInf else NegInf)
      else Num \<lfloor>toDouble (toDouble (of_int p / of_int t) * 100) + 1 / 2\<rfloor>)"

text \<open>
  \<^verbatim>\<open>n++\<close> on a number that holds the integer \<open>n\<close>: the sum \<open>n + 1\<close>, rounded to
  binary64. The sum is exact on the safe integers (\<^verbatim>\<open>Number.isSafeInteger\<close>, magnitude
  at most \<open>2\<^sup>5\<^sup>3 - 1\<close>); at \<open>2\<^sup>5\<^sup>3\<close> the increment returns its argument.
\<close>

definition isSafeInteger :: "int \<Rightarrow> bool" where
  "isSafeInteger n = (\<bar>n\<bar> \<le> 2 ^ 53 - 1)"

definition increment :: "int \<Rightarrow> int" where
  "increment n = \<lfloor>toDouble (of_int n + 1)\<rfloor>"

subsection \<open>Numbers as text\<close>

text \<open>
  \<^verbatim>\<open>String(n)\<close> for an integer \<open>n\<close>, in the decimal notation JavaScript uses
  below \<open>10\<^sup>2\<^sup>1\<close>, and for the non-finite numbers.
\<close>

definition digitChar :: "int \<Rightarrow> char" where
  "digitChar d = ''0123456789'' ! nat (d mod 10)"

function digitsOf :: "int \<Rightarrow> string" where
  "digitsOf n = (if n < 10 then [digitChar n] else digitsOf (n div 10) @ [digitChar n])"
  by pat_completeness auto
termination
  by (relation "measure nat") auto

declare digitsOf.simps [simp del]

definition showInt :: "int \<Rightarrow> string" where
  "showInt n = (if n < 0 then CHR ''-'' # digitsOf (- n) else digitsOf n)"

fun showNum :: "jsnum \<Rightarrow> string" where
  "showNum (Num n) = showInt n"
| "showNum NaN = ''NaN''"
| "showNum PosInf = ''Infinity''"
| "showNum NegInf = ''-Infinity''"

subsection \<open>Phase calculation\<close>

datatype phase = Setup | Confrontation | Resolution

fun phaseName :: "phase \<Rightarrow> string" where
  "phaseName Setup = ''setup''"
| "phaseName Confrontation = ''confrontation''"
| "phaseName Resolution = ''resolution''"

record phase_info =
  phase :: phase
  positionInPhase :: int
  totalInPhase :: int
  percentInPhase :: jsnum
  phaseStart :: int
  phaseEnd :: int

text \<open>
  \<^verbatim>\<open>getPhaseInfo(currentStep, arcLength)\<close>. A non-positive arc length is replaced by 30;
  the three branches are those of the source, in its order.
\<close>

definition getPhaseInfo :: "int \<Rightarrow> int \<Rightarrow> phase_info" where
  "getPhaseInfo step len =
     (let arcLen = (if len \<le> 0 then 30 else len);
          setupEnd = floorTimes arcLen (33 / 100);
          confrontationEnd = floorTimes arcLen (66 / 100);
          (ph, pStart, pEnd, pos) =
            (if step \<le> setupEnd then (Setup, 1, setupEnd, step)
             else if step \<le> confrontationEnd
               then (Confrontation, setupEnd + 1, confrontationEnd, step - setupEnd)
             else (Resolution, confrontationEnd + 1, arcLen, step - confrontationEnd));
          total = pEnd - pStart + 1
      in \<lparr>phase = ph, positionInPhase = pos, totalInPhase = total,
          percentInPhase = jsPercent pos total, phaseStart = pStart, phaseEnd = pEnd\<rparr>)"

subsection \<open>Catalog, settings and per-chat state\<close>

text \<open>
  A story type and an author style as the editor and the seed data write them. The
  blueprint and the progress template are strings; \<open>phasePrompts\<close> may be missing as a
  whole or for a phase (the source reads it with \<^verbatim>\<open>?.\<close> and \<^verbatim>\<open>|| ''\<close>), and so may the
  NSFW guidance of a style.
\<close>

record author_style =
  id :: string
  name :: string
  category :: "string list"
  authorPrompt :: string
  nsfwPrompt :: "string option"
  styleKeywords :: "string list"

record story_type =
  id :: string
  name :: string
  category :: "string list"
  storyPrompt :: string
  progressTemplate :: string
  phasePrompts :: "(phase \<Rightarrow> string option) option"
  isTemplate :: bool

text \<open>
  Modelled from the spec: the host's constants \<^verbatim>\<open>extension_prompt_types\<close> and
  \<^verbatim>\<open>extension_prompt_roles\<close> are imported from \<^verbatim>\<open>/script.js\<close>, which is not part of the
  repository; the spec lists the positions in-prompt, in-chat-at-depth, before-prompt and
  none, and the roles system, user and assistant.
\<close>

datatype prompt_type = NONE | IN_PROMPT | IN_CHAT | BEFORE_PROMPT

datatype prompt_role = SYSTEM | USER | ASSISTANT

text \<open>
  \<^verbatim>\<open>extension_settings[MODULE_NAME]\<close>: the fields of \<^verbatim>\<open>defaultSettings\<close>, and the two
  optional ones that \<^verbatim>\<open>summarizeChatMainForStory\<close> reads with \<^verbatim>\<open>??\<close>.
\<close>

record ext_settings =
  enabled :: bool
  storyArcEnabled :: bool
  selectedStoryType :: string
  selectedAuthorStyle :: string
  arcLength :: int
  currentStep :: int
  authorStyleEnabled :: bool
  nsfwEnabled :: bool
  epilogueEnabled :: bool
  summaryEnabled :: bool
  summaryMessageCount :: int
  debugMode :: bool
  position :: prompt_type
  depth :: int
  role :: prompt_role
  summaryWords :: "int option"
  summaryMaxTokens :: "int option"

text \<open>\<^verbatim>\<open>chatMetadata[MODULE_NAME]\<close>: the arc state of one conversation.\<close>

record chat_state =
  currentStep :: int
  arcStarted :: bool
  epilogueShown :: bool
  summaryShown :: bool
  selectedStoryType :: string
  selectedAuthorStyle :: string
  arcLength :: int

record message =
  is_user :: bool
  mes :: string
  is_system :: bool
  name :: string
  force_avatar :: string
  send_date :: int

text \<open>The last call of \<^verbatim>\<open>setExtensionPrompt\<close> for this module.\<close>

record extension_prompt =
  promptText :: string
  promptPosition :: prompt_type
  promptDepth :: int
  promptScan :: "bool option"
  promptRole :: "prompt_role option"

text \<open>
  The state the handlers share: the settings, the metadata of the current chat and what
  \<^verbatim>\<open>saveMetadata\<close> last wrote, the number of \<^verbatim>\<open>CHAT_METADATA_UPDATED\<close> notifications
  emitted, the catalog, the chat, the two module-level flags and the injected prompt.
\<close>

record world =
  extension_settings :: ext_settings
  chatMetadata :: "chat_state option"
  savedMetadata :: "chat_state option"
  metadataUpdated :: nat
  storyTypes :: "story_type list"
  authorStyles :: "author_style list"
  chat :: "message list"
  isRegenerating :: bool
  isLoadingChat :: bool
  extensionPrompt :: "extension_prompt option"

text \<open>
  \<^verbatim>\<open>getChatStoryState\<close>: a chat without state gets one, seeded from the settings
  (\<^verbatim>\<open>settings.arcLength || 30\<close>), and the metadata keeps it.
\<close>

definition getChatStoryState :: "world \<Rightarrow> chat_state \<times> world" where
  "getChatStoryState w =
     (case chatMetadata w of
        Some st \<Rightarrow> (st, w)
      | None \<Rightarrow>
          (let settings = extension_settings w;
               st = \<lparr>currentStep = 0, arcStarted = False, epilogueShown = False,
                     summaryShown = False,
                     selectedStoryType = ext_settings.selectedStoryType settings,
                     selectedAuthorStyle = ext_settings.selectedAuthorStyle settings,
                     arcLength = (if ext_settings.arcLength settings = 0 then 30
                                  else ext_settings.arcLength settings)\<rparr>
           in (st, w\<lparr>chatMetadata := Some st\<rparr>)))"

text \<open>
  \<^verbatim>\<open>saveChatStoryState\<close>: the metadata takes the state, \<^verbatim>\<open>saveMetadata\<close> persists it
  and the notification is emitted.
\<close>

definition saveChatStoryState :: "chat_state \<Rightarrow> world \<Rightarrow> world" where
  "saveChatStoryState st w =
     w\<lparr>chatMetadata := Some st, savedMetadata := Some st,
       metadataUpdated := Suc (metadataUpdated w)\<rparr>"

subsection \<open>Template substitution\<close>

text \<open>
  \<^verbatim>\<open>s.replace(/pat/g, rep)\<close> for a literal pattern: the matches are found from left to
  right and do not overlap. The replacement texts of the source are numbers and phase
  names, so no \<^verbatim>\<open>$\<close> pattern of the replacement syntax occurs.
\<close>

function replaceAll :: "string \<Rightarrow> string \<Rightarrow> string \<Rightarrow> string" where
  "replaceAll pat rep [] = []"
| "replaceAll pat rep (c # cs) =
     (if pat \<noteq> [] \<and> prefix pat (c # cs)
      then rep @ replaceAll pat rep (drop (length pat) (c # cs))
      else c # replaceAll pat rep cs)"
  by pat_completeness auto
termination
  by (relation "measure (\<lambda>(pat, rep, s). length s)") auto

text \<open>\<^verbatim>\<open>parts.join(sep)\<close>.\<close>

fun joinWith :: "string \<Rightarrow> string list \<Rightarrow> string" where
  "joinWith sep [] = []"
| "joinWith sep [x] = x"
| "joinWith sep (x # y # ys) = x @ sep @ joinWith sep (y # ys)"

definition nl :: string where
  "nl = [CHR 0x0A]"

text \<open>\<^verbatim>\<open>buildStoryBlueprint\<close>: the blueprint, verbatim.\<close>

definition buildStoryBlueprint :: "story_type \<Rightarrow> string" where
  "buildStoryBlueprint storyType = storyPrompt storyType"

text \<open>
  The binding \<^verbatim>\<open>progressText\<close> of \<^verbatim>\<open>buildPhaseInjection\<close>: nine global replacements,
  one after the other, in the order of the source.
\<close>

definition progressText :: "story_type \<Rightarrow> phase_info \<Rightarrow> chat_state \<Rightarrow> string" where
  "progressText storyType phaseInfo chatState =
     (let nextStep = currentStep chatState + 1;
          t1 = replaceAll ''{currentStep}'' (showInt nextStep) (progressTemplate storyType);
          t2 = replaceAll ''{arcLength}'' (showInt (arcLength chatState)) t1;
          t3 = replaceAll ''{arcPercent}''
                 (showNum (jsPercent nextStep (arcLength chatState))) t2;
          t4 = replaceAll ''{phase}'' (phaseName (phase phaseInfo)) t3;
          t5 = replaceAll ''{positionInPhase}'' (showInt (positionInPhase phaseInfo)) t4;
          t6 = replaceAll ''{totalInPhase}'' (showInt (totalInPhase phaseInfo)) t5;
          t7 = replaceAll ''{phasePercent}'' (showNum (percentInPhase phaseInfo)) t6;
          t8 = replaceAll ''{phaseStart}'' (showInt (phaseStart phaseInfo)) t7
      in replaceAll ''{phaseEnd}'' (showInt (phaseEnd phaseInfo)) t8)"

text \<open>\<^verbatim>\<open>storyType.phasePrompts?.[phaseInfo.phase] || ''\<close>.\<close>

definition phaseGuidance :: "story_type \<Rightarrow> phase \<Rightarrow> string" where
  "phaseGuidance storyType ph =
     (case phasePrompts storyType of
        None \<Rightarrow> []
      | Some prompts \<Rightarrow> (case prompts ph of None \<Rightarrow> [] | Some g \<Rightarrow> g))"

definition debugNote :: "int \<Rightarrow> int \<Rightarrow> phase \<Rightarrow> string" where
  \<open>debugNote nextStep len ph =
     nl @ nl @
     ''[IMPORTANT: At the end of your response, include a debug note in this exact format: "(OOC: Step ''
     @ showInt nextStep @ ''/'' @ showInt len @ '', Phase: '' @ phaseName ph @ '')"]''\<close>

definition buildPhaseInjection ::
  "ext_settings \<Rightarrow> story_type \<Rightarrow> phase_info \<Rightarrow> chat_state \<Rightarrow> string" where
  "buildPhaseInjection settings storyType phaseInfo chatState =
     (let nextStep = currentStep chatState + 1;
          output = progressText storyType phaseInfo chatState @ nl @ nl
                     @ phaseGuidance storyType (phase phaseInfo)
      in if debugMode settings
         then output @ debugNote nextStep (arcLength chatState) (phase phaseInfo)
         else output)"

subsection \<open>Composing the injection\<close>

text \<open>
  The first block of \<^verbatim>\<open>buildFullInjection\<close>: what it pushes on \<^verbatim>\<open>parts\<close> for the
  story arc. \<^verbatim>\<open>storyTypes.find\<close> returns the first entry with the selected id.
\<close>

definition storyArcParts ::
  "ext_settings \<Rightarrow> story_type list \<Rightarrow> chat_state \<Rightarrow> bool \<Rightarrow> string list" where
  "storyArcParts settings types chatState isPreview =
     (if storyArcEnabled settings \<and> selectedStoryType chatState \<noteq> []
      then (case find (\<lambda>t. story_type.id t = selectedStoryType chatState) types of
              None \<Rightarrow> []
            | Some storyType \<Rightarrow>
                if currentStep chatState < arcLength chatState \<or> isPreview
                then (let nextStep = currentStep chatState + 1;
                          phaseInfo = getPhaseInfo nextStep (arcLength chatState);
                          storyContent = buildStoryBlueprint storyType @ nl @ nl
                            @ buildPhaseInjection settings storyType phaseInfo chatState
                      in [''<story>'' @ nl @ storyContent @ nl @ ''</story>''])
                else [])
      else [])"

text \<open>The second block: what it pushes for the author style.\<close>

definition authorStyleParts ::
  "ext_settings \<Rightarrow> author_style list \<Rightarrow> chat_state \<Rightarrow> string list" where
  "authorStyleParts settings styles chatState =
     (if authorStyleEnabled settings \<and> selectedAuthorStyle chatState \<noteq> []
      then (case find (\<lambda>s. author_style.id s = selectedAuthorStyle chatState) styles of
              None \<Rightarrow> []
            | Some authorStyle \<Rightarrow>
                (let styleContent =
                       (case nsfwPrompt authorStyle of
                          Some nsfw \<Rightarrow>
                            if nsfwEnabled settings \<and> nsfw \<noteq> []
                            then authorPrompt authorStyle @ nl @ nl @ nsfw
                            else authorPrompt authorStyle
                        | None \<Rightarrow> authorPrompt authorStyle)
                 in [''<style>'' @ nl @ styleContent @ nl @ ''</style>'']))
      else [])"

text \<open>
  \<^verbatim>\<open>buildFullInjection(isPreview)\<close>: the chat state is read first (which may seed it),
  then the disabled check, then the two blocks, joined by a blank line.
\<close>

definition buildFullInjection :: "world \<Rightarrow> bool \<Rightarrow> string \<times> world" where
  "buildFullInjection w isPreview =
     (let settings = extension_settings w;
          (chatState, w') = getChatStoryState w
      in if \<not> enabled settings then ([], w')
         else (joinWith (nl @ nl)
                 (storyArcParts settings (storyTypes w') chatState isPreview
                  @ authorStyleParts settings (authorStyles w') chatState), w'))"

text \<open>
  \<^verbatim>\<open>updateStoryPrompt\<close>: the prompt is cleared when the extension is disabled or there
  is nothing to inject, and set from the settings otherwise.
\<close>

definition clearedPrompt :: extension_prompt where
  "clearedPrompt = \<lparr>promptText = [], promptPosition = NONE, promptDepth = 0,
     promptScan = None, promptRole = None\<rparr>"

definition updateStoryPrompt :: "world \<Rightarrow> world" where
  "updateStoryPrompt w =
     (let settings = extension_settings w
      in if \<not> enabled settings then w\<lparr>extensionPrompt := Some clearedPrompt\<rparr>
         else (let (promptText, w') = buildFullInjection w False
               in if promptText = [] then w'\<lparr>extensionPrompt := Some clearedPrompt\<rparr>
                  else w'\<lparr>extensionPrompt :=
                         Some \<lparr>promptText = promptText, promptPosition = position settings,
                               promptDepth = depth settings, promptScan = Some False,
                               promptRole = Some (role settings)\<rparr>\<rparr>))"

text \<open>
  \<^verbatim>\<open>updateStatusDisplay\<close> writes to the DOM only; what it leaves in the shared state is
  the seeding done by its call of \<^verbatim>\<open>getChatStoryState\<close>.
\<close>

definition updateStatusDisplay :: "world \<Rightarrow> world" where
  "updateStatusDisplay w = snd (getChatStoryState w)"

subsection \<open>The text-generation collaborator and the post-arc texts\<close>

text \<open>
  \<^verbatim>\<open>generateRaw\<close> belongs to the host: it may throw, return nothing, or return a text.
  It is a parameter of the model, as is the clock read by \<^verbatim>\<open>Date.now()\<close>, here a
  function of the number of messages already in the chat.
\<close>

record gen_request =
  prompt :: string
  systemPrompt :: string
  responseLength :: "int option"

datatype gen_outcome = Throws | Returns "string option"

record env =
  generateRaw :: "gen_request \<Rightarrow> gen_outcome"
  dateNow :: "nat \<Rightarrow> int"

datatype error = GenerationFailed

text \<open>
  An asynchronous handler either completes with a new state or is rejected with the
  exception, leaving the state it had reached.
\<close>

type_synonym 'a result = "(error \<times> world) + 'a"

text \<open>
  \<^verbatim>\<open>String.prototype.trim\<close> on the white space and line terminators that fit a
  \<^typ>\<open>char\<close>: tab, line feed, vertical tab, form feed, carriage return, space and
  no-break space.
\<close>

definition isSpace :: "char \<Rightarrow> bool" where
  "isSpace c = (c \<in> set [CHR 0x09, CHR 0x0A, CHR 0x0B, CHR 0x0C, CHR 0x0D, CHR 0x20, CHR 0xA0])"

definition trim :: "string \<Rightarrow> string" where
  "trim s = rev (dropWhile isSpace (rev (dropWhile isSpace s)))"

text \<open>\<^verbatim>\<open>xs.slice(k)\<close>: a negative \<open>k\<close> counts from the end.\<close>

definition sliceFrom :: "int \<Rightarrow> 'a list \<Rightarrow> 'a list" where
  "sliceFrom k xs = (if k < 0 then drop (length xs - nat (- k)) xs else drop (nat k) xs)"

text \<open>\<^verbatim>\<open>s.replace(pat, rep)\<close> with a string pattern: the first occurrence only.\<close>

fun replaceFirst :: "string \<Rightarrow> string \<Rightarrow> string \<Rightarrow> string" where
  "replaceFirst pat rep [] = (if pat = [] then rep else [])"
| "replaceFirst pat rep (c # cs) =
     (if prefix pat (c # cs) then rep @ drop (length pat) (c # cs)
      else c # replaceFirst pat rep cs)"

text \<open>\<^verbatim>\<open>chat.filter(m => !m.is_system && m.mes)\<close>.\<close>

definition storyMessages :: "message list \<Rightarrow> message list" where
  "storyMessages msgs = filter (\<lambda>m. \<not> is_system m \<and> mes m \<noteq> []) msgs"

definition epilogueSystemPrompt :: string where
  \<open>epilogueSystemPrompt =
     ''You are wrapping up a completed story arc. The story has reached its conclusion at the planned arc length. Write an epilogue that:''
     @ nl @ ''- Wraps up loose threads''
     @ nl @ ''- Brings the narrative to a satisfying close''
     @ nl @ ''- Provides closure for character arcs''
     @ nl @ ''- Sets the tone for what comes after''
     @ nl @ nl @
     ''IMPORTANT: Start your response with the heading "**Epilogue**" on its own line, followed by a blank line, then write the epilogue content.''\<close>

definition epilogueUserPrompt :: "string \<Rightarrow> string" where
  "epilogueUserPrompt recentMessages =
     ''Based on the recent story context below, write an epilogue that wraps up this story arc:''
     @ nl @ nl @ recentMessages"

text \<open>
  \<^verbatim>\<open>generateEpilogueForStory\<close>: the last 20 story messages are the context; without
  any text nothing is generated; an exception of the collaborator is caught and gives the
  empty string, as does an empty or missing answer.
\<close>

definition generateEpilogueForStory :: "env \<Rightarrow> world \<Rightarrow> string" where
  "generateEpilogueForStory e w =
     (let recentMessages =
            joinWith (nl @ nl) (map mes (sliceFrom (- 20) (storyMessages (chat w))))
      in if trim recentMessages = [] then []
         else (case generateRaw e \<lparr>prompt = epilogueUserPrompt recentMessages,
                                    systemPrompt = epilogueSystemPrompt,
                                    responseLength = None\<rparr> of
                 Throws \<Rightarrow> []
               | Returns None \<Rightarrow> []
               | Returns (Some epilogue) \<Rightarrow> trim epilogue))"

definition STORY_SUMMARY_PROMPT :: string where
  \<open>STORY_SUMMARY_PROMPT =
     nl @
     ''You are a summarization assistant for a fictional story. Provide a comprehensive summary of the story arc using at most {{words}} words.''
     @ nl @ nl @ ''Include:''
     @ nl @ ''- **Character Development**: How each major character has changed and grown''
     @ nl @ ''- **Key Events**: The most important moments in chronological order''
     @ nl @ ''- **Important Elements**: Significant objects, locations, and relationships''
     @ nl @ ''- **Major Themes**: The underlying themes and messages explored''
     @ nl @ ''- **Resolution Status**: What was resolved and what remains open''
     @ nl @ nl @
     ''Format this as a clear, well-organized narrative summary. Use markdown formatting and section headings to organize the summary.''
     @ nl @ nl @
     ''IMPORTANT: Start your response with the heading "**Story Arc Summary**" on its own line, followed by a blank line, then write the summary content with your subsection headings.''
     @ nl\<close>

text \<open>
  \<^verbatim>\<open>getStoryTextToSummarize\<close>: the whole chat when the message count is 0, the slice
  \<^verbatim>\<open>slice(-count)\<close> otherwise.
\<close>

definition getStoryTextToSummarize :: "world \<Rightarrow> string" where
  "getStoryTextToSummarize w =
     (let settings = extension_settings w;
          filteredMessages = storyMessages (chat w);
          messagesToSummarize =
            (if summaryMessageCount settings = 0 then filteredMessages
             else sliceFrom (- summaryMessageCount settings) filteredMessages)
      in joinWith (nl @ nl) (map mes messagesToSummarize))"

text \<open>
  \<^verbatim>\<open>summarizeChatMainForStory\<close>: the call of the collaborator is not inside a
  \<^verbatim>\<open>try\<close>, so its exception leaves the function.
\<close>

definition summarizeChatMainForStory :: "env \<Rightarrow> world \<Rightarrow> error + string" where
  "summarizeChatMainForStory e w =
     (let storyText = getStoryTextToSummarize w
      in if trim storyText = [] then Inr []
         else (let settings = extension_settings w;
                   words = (case summaryWords settings of None \<Rightarrow> 500 | Some n \<Rightarrow> n);
                   sysPrompt = replaceFirst ''{{words}}'' (showInt words) STORY_SUMMARY_PROMPT
               in case generateRaw e
                      \<lparr>prompt = storyText, systemPrompt = sysPrompt,
                       responseLength =
                         Some (case summaryMaxTokens settings of None \<Rightarrow> 0 | Some n \<Rightarrow> n)\<rparr> of
                    Throws \<Rightarrow> Inl GenerationFailed
                  | Returns None \<Rightarrow> Inr []
                  | Returns (Some summary) \<Rightarrow> Inr (trim summary)))"

subsection \<open>The handlers of the lifecycle events\<close>

text \<open>
  \<^verbatim>\<open>pushStoryMessage\<close>: the message is appended to the chat (and rendered by the host).
\<close>

definition pushStoryMessage :: "env \<Rightarrow> string \<Rightarrow> world \<Rightarrow> world" where
  "pushStoryMessage e messageText w =
     w\<lparr>chat := chat w @
          [\<lparr>is_user = False, mes = messageText, is_system = False, name = ''Story Mode'',
            force_avatar = ''img/quill.png'', send_date = dateNow e (length (chat w))\<rparr>]\<rparr>"

definition NOTICE_TEXT :: string where
  "NOTICE_TEXT =
     ''**<center>You have reached the end of this story arc. ''
     @ ''Feel free to continue, or if you would like to start a new arc, ''
     @ ''click Reset Arc in the Story Mode settings.</center>**''"

text \<open>The epilogue block of the completion branch.\<close>

definition epilogueStep :: "env \<Rightarrow> ext_settings \<Rightarrow> chat_state \<times> world \<Rightarrow> chat_state \<times> world" where
  "epilogueStep e settings sw =
     (let (chatState, w) = sw
      in if epilogueEnabled settings \<and> \<not> epilogueShown chatState
         then (let epilogue = generateEpilogueForStory e w
               in if epilogue \<noteq> []
                  then (let w1 = pushStoryMessage e epilogue w;
                            chatState1 = chatState\<lparr>epilogueShown := True\<rparr>
                        in (chatState1, saveChatStoryState chatState1 w1))
                  else (chatState, w))
         else (chatState, w))"

text \<open>The summary block; an exception of the collaborator ends the handler here.\<close>

definition summaryStep ::
  "env \<Rightarrow> ext_settings \<Rightarrow> chat_state \<times> world \<Rightarrow> (chat_state \<times> world) result" where
  "summaryStep e settings sw =
     (let (chatState, w) = sw
      in if summaryEnabled settings \<and> \<not> summaryShown chatState
         then (case summarizeChatMainForStory e w of
                 Inl err \<Rightarrow> Inl (err, w)
               | Inr summary \<Rightarrow>
                   if summary \<noteq> []
                   then (let w1 = pushStoryMessage e summary w;
                             chatState1 = chatState\<lparr>summaryShown := True\<rparr>
                         in Inr (chatState1, saveChatStoryState chatState1 w1))
                   else Inr (chatState, w))
         else Inr (chatState, w))"

definition conditionsMet :: "ext_settings \<Rightarrow> chat_state \<Rightarrow> bool" where
  "conditionsMet settings chatState =
     ((\<not> epilogueEnabled settings \<and> \<not> summaryEnabled settings)
      \<or> (epilogueEnabled settings \<and> epilogueShown chatState
          \<and> (\<not> summaryEnabled settings \<or> summaryShown chatState))
      \<or> (summaryEnabled settings \<and> summaryShown chatState
          \<and> (\<not> epilogueEnabled settings \<or> epilogueShown chatState)))"

definition endNotice :: "env \<Rightarrow> ext_settings \<Rightarrow> chat_state \<times> world \<Rightarrow> world" where
  "endNotice e settings sw =
     (let (chatState, w) = sw
      in if conditionsMet settings chatState then pushStoryMessage e NOTICE_TEXT w else w)"

text \<open>The branch \<^verbatim>\<open>chatState.currentStep === chatState.arcLength\<close>.\<close>

definition completionSequence ::
  "env \<Rightarrow> ext_settings \<Rightarrow> chat_state \<times> world \<Rightarrow> world result" where
  "completionSequence e settings sw =
     (case summaryStep e settings (epilogueStep e settings sw) of
        Inl err \<Rightarrow> Inl err
      | Inr sw' \<Rightarrow> Inr (endNotice e settings sw'))"

text \<open>
  \<^verbatim>\<open>onMessageReceived(data)\<close>. The argument is \<open>Some b\<close> when the event carries an
  \<^verbatim>\<open>is_user\<close> flag \<open>b\<close>, and \<open>None\<close> when it carries none.
\<close>

definition onMessageReceived :: "env \<Rightarrow> bool option \<Rightarrow> world \<Rightarrow> world result" where
  "onMessageReceived e data w =
     (let settings = extension_settings w
      in if data = Some True then Inr w
         else if isLoadingChat w then Inr w
         else if isRegenerating w then Inr (w\<lparr>isRegenerating := False\<rparr>)
         else if \<not> enabled settings \<or> \<not> storyArcEnabled settings then Inr w
         else (let (chatState, w1) = getChatStoryState w
               in if currentStep chatState < arcLength chatState
                  then (let chatState1 =
                              chatState\<lparr>currentStep := increment (currentStep chatState)\<rparr>
                        in Inr (updateStatusDisplay
                                  (updateStoryPrompt (saveChatStoryState chatState1 w1))))
                  else if currentStep chatState = arcLength chatState
                  then completionSequence e settings (chatState, w1)
                  else Inr w1))"

text \<open>The handler of \<^verbatim>\<open>GENERATION_STARTED\<close>.\<close>

definition onGenerationStarted :: "world \<Rightarrow> world" where
  "onGenerationStarted w =
     (let w1 = w\<lparr>isLoadingChat := False\<rparr>
      in if 0 < length (chat w1) then updateStoryPrompt (w1\<lparr>isRegenerating := False\<rparr>)
         else w1\<lparr>isRegenerating := True\<rparr>)"

text \<open>The handlers of \<^verbatim>\<open>MESSAGE_SWIPED\<close> and \<^verbatim>\<open>MESSAGE_REGENERATED\<close>.\<close>

definition onMessageSwiped :: "world \<Rightarrow> world" where
  "onMessageSwiped w = updateStoryPrompt (w\<lparr>isRegenerating := True\<rparr>)"

definition onMessageRegenerated :: "world \<Rightarrow> world" where
  "onMessageRegenerated w = updateStoryPrompt (w\<lparr>isRegenerating := True\<rparr>)"

text \<open>
  \<^verbatim>\<open>onChatChanged\<close>, and the timer it starts, which clears the loading flag a second
  later.
\<close>

definition onChatChanged :: "world \<Rightarrow> world" where
  "onChatChanged w =
     updateStatusDisplay (updateStoryPrompt (w\<lparr>isRegenerating := False, isLoadingChat := True\<rparr>))"

definition chatLoadTimer :: "world \<Rightarrow> world" where
  "chatLoadTimer w = w\<lparr>isLoadingChat := False\<rparr>"

text \<open>The signals of the host, and a run of the controller over a sequence of them.\<close>

datatype signal =
    GenerationStarted
  | MessageSwiped
  | MessageRegenerated
  | MessageReceived "bool option"
  | ChatChanged
  | ChatLoadTimer

fun dispatch :: "env \<Rightarrow> signal \<Rightarrow> world \<Rightarrow> world result" where
  "dispatch e GenerationStarted w = Inr (onGenerationStarted w)"
| "dispatch e MessageSwiped w = Inr (onMessageSwiped w)"
| "dispatch e MessageRegenerated w = Inr (onMessageRegenerated w)"
| "dispatch e (MessageReceived data) w = onMessageReceived e data w"
| "dispatch e ChatChanged w = Inr (onChatChanged w)"
| "dispatch e ChatLoadTimer w = Inr (chatLoadTimer w)"

fun run :: "env \<Rightarrow> signal list \<Rightarrow> world \<Rightarrow> world result" where
  "run e [] w = Inr w"
| "run e (sig # sigs) w =
     (case dispatch e sig w of Inl err \<Rightarrow> Inl err | Inr w' \<Rightarrow> run e sigs w')"

subsection \<open>The renderer and the story segment in the words of the specification\<close>

text \<open>
  The specification describes a renderer that replaces every occurrence of each of nine
  recognized placeholder tokens by its value and leaves everything else, unrecognized
  placeholders included, verbatim. \<open>renderSpec\<close> is that renderer: it reads the template
  from left to right; where a recognized token starts, it writes the token's value and
  continues behind the token; anywhere else it copies the character.
\<close>

definition recognizedTokens :: "string list" where
  "recognizedTokens =
     [''{currentStep}'', ''{arcLength}'', ''{arcPercent}'', ''{phase}'', ''{positionInPhase}'',
      ''{totalInPhase}'', ''{phasePercent}'', ''{phaseStart}'', ''{phaseEnd}'']"

definition tokenAt :: "(string \<times> string) list \<Rightarrow> string \<Rightarrow> (string \<times> string) option" where
  "tokenAt vars s = find (\<lambda>kv. fst kv \<noteq> [] \<and> prefix (fst kv) s) vars"

function renderSpec :: "(string \<times> string) list \<Rightarrow> string \<Rightarrow> string" where
  "renderSpec vars [] = []"
| "renderSpec vars (c # cs) =
     (case tokenAt vars (c # cs) of
        Some kv \<Rightarrow> snd kv @ renderSpec vars (drop (length (fst kv)) (c # cs))
      | None \<Rightarrow> c # renderSpec vars cs)"
  by pat_completeness auto
termination
  by (relation "measure (\<lambda>(vars, s). length s)") (auto simp: tokenAt_def find_Some_iff)

text \<open>
  The variables of the specification's renderer for a given step: the step itself, the
  arc length, the percentage of the arc, and the phase view.
\<close>

definition templateVariables :: "int \<Rightarrow> int \<Rightarrow> phase_info \<Rightarrow> (string \<times> string) list" where
  "templateVariables step len info =
     [(''{currentStep}'', showInt step),
      (''{arcLength}'', showInt len),
      (''{arcPercent}'', showNum (jsPercent step len)),
      (''{phase}'', phaseName (phase info)),
      (''{positionInPhase}'', showInt (positionInPhase info)),
      (''{totalInPhase}'', showInt (totalInPhase info)),
      (''{phasePercent}'', showNum (percentInPhase info)),
      (''{phaseStart}'', showInt (phaseStart info)),
      (''{phaseEnd}'', showInt (phaseEnd info))]"

text \<open>
  The story-arc segment of the specification for a given step: the blueprint, the progress
  template rendered for that step, the guidance of that step's phase, and in debug mode
  the directive naming that step and phase.
\<close>

definition specStorySegment :: "ext_settings \<Rightarrow> story_type \<Rightarrow> int \<Rightarrow> int \<Rightarrow> string" where
  "specStorySegment settings storyType step len =
     (let info = getPhaseInfo step len
      in ''<story>'' @ nl @ storyPrompt storyType @ nl @ nl
         @ renderSpec (templateVariables step len info) (progressTemplate storyType)
         @ nl @ nl @ phaseGuidance storyType (phase info)
         @ (if debugMode settings then debugNote step len (phase info) else [])
         @ nl @ ''</story>'')"

text \<open>
  Two notions for the proofs about substitution: a placeholder is a text that starts with
  its only opening brace and ends with a closing brace; a plain value is a non-empty text
  without braces that is no part of a recognized token.
\<close>

definition placeholder :: "string \<Rightarrow> bool" where
  "placeholder k =
     (k \<noteq> [] \<and> hd k = CHR ''{'' \<and> CHR ''{'' \<notin> set (tl k) \<and> tl k \<noteq> [] \<and> last k = CHR ''}'')"

definition plainValue :: "string \<Rightarrow> bool" where
  "plainValue v =
     (v \<noteq> [] \<and> CHR ''{'' \<notin> set v \<and> CHR ''}'' \<notin> set v
      \<and> (\<forall>k \<in> set recognizedTokens. \<not> sublist v k))"

subsection \<open>Scenarios\<close>

text \<open>The result of a handler as a state, whether it completed or was rejected.\<close>

definition resultWorld :: "world result \<Rightarrow> world" where
  "resultWorld r = (case r of Inl (err, w) \<Rightarrow> w | Inr w \<Rightarrow> w)"

definition stepOf :: "world result \<Rightarrow> int option" where
  "stepOf r = map_option currentStep (chatMetadata (resultWorld r))"

text \<open>\<^verbatim>\<open>defaultSettings\<close> of the source, and the same with the extension and the arc on.\<close>

definition defaultSettings :: ext_settings where
  "defaultSettings =
     \<lparr>enabled = False, storyArcEnabled = False, selectedStoryType = [],
      selectedAuthorStyle = [], arcLength = 30, currentStep = 0,
      authorStyleEnabled = False, nsfwEnabled = False, epilogueEnabled = False,
      summaryEnabled = False, summaryMessageCount = 0, debugMode = False,
      position = IN_CHAT, depth = 4, role = SYSTEM,
      summaryWords = None, summaryMaxTokens = None\<rparr>"

definition arcSettings :: ext_settings where
  "arcSettings = defaultSettings\<lparr>enabled := True, storyArcEnabled := True\<rparr>"

definition openingMessage :: message where
  "openingMessage =
     \<lparr>is_user = False, mes = ''The rain had not stopped for three days.'', is_system = False,
      name = ''Narrator'', force_avatar = [], send_date = 0\<rparr>"

text \<open>
  A chat with one assistant message and an arc at a given step, with no selection; and
  a collaborator that throws on every request.
\<close>

definition arcState :: "int \<Rightarrow> int \<Rightarrow> chat_state" where
  "arcState step len =
     \<lparr>currentStep = step, arcStarted = False, epilogueShown = False, summaryShown = False,
      selectedStoryType = [], selectedAuthorStyle = [], arcLength = len\<rparr>"

definition arcWorld :: "ext_settings \<Rightarrow> int \<Rightarrow> int \<Rightarrow> world" where
  "arcWorld settings step len =
     \<lparr>extension_settings = settings, chatMetadata = Some (arcState step len),
      savedMetadata = None, metadataUpdated = 0, storyTypes = [], authorStyles = [],
      chat = [openingMessage], isRegenerating = False, isLoadingChat = False,
      extensionPrompt = None\<rparr>"

definition failingEnv :: env where
  "failingEnv = \<lparr>generateRaw = (\<lambda>request. Throws), dateNow = (\<lambda>n. 0)\<rparr>"

text \<open>A small catalog: one story type and one author style.\<close>

definition noirType :: story_type where
  "noirType =
     \<lparr>story_type.id = ''noir-detective'', story_type.name = ''Noir Detective'',
      story_type.category = [''Mystery''],
      storyPrompt = ''A weary detective takes one last case.'',
      progressTemplate = ''Step {currentStep}/{arcLength}, phase {phase}.'',
      phasePrompts = Some (\<lambda>ph. Some (case ph of Setup \<Rightarrow> ''Introduce the case.''
                                       | Confrontation \<Rightarrow> ''Raise the stakes.''
                                       | Resolution \<Rightarrow> ''Close the case.'')),
      isTemplate = False\<rparr>"

definition terseStyle :: author_style where
  "terseStyle =
     \<lparr>author_style.id = ''terse'', author_style.name = ''Terse'',
      author_style.category = [''Classic''],
      authorPrompt = ''Short declarative sentences.'', nsfwPrompt = None,
      styleKeywords = []\<rparr>"

definition catalogWorld :: "ext_settings \<Rightarrow> chat_state \<Rightarrow> world" where
  "catalogWorld settings st =
     \<lparr>extension_settings = settings, chatMetadata = Some st,
      savedMetadata = None, metadataUpdated = 0, storyTypes = [noirType],
      authorStyles = [terseStyle], chat = [openingMessage], isRegenerating = False,
      isLoadingChat = False, extensionPrompt = None\<rparr>"


text \<open>A chat that selects a story type missing from the catalog, and a style that exists.\<close>

definition ghostState :: chat_state where
  "ghostState =
     (arcState 3 30)\<lparr>selectedStoryType := ''ghost-42'', selectedAuthorStyle := ''terse''\<rparr>"

definition bothSettings :: ext_settings where
  "bothSettings = arcSettings\<lparr>authorStyleEnabled := True\<rparr>"

text \<open>A completed arc, step 30 of 30, with the story type selected.\<close>

definition completedState :: chat_state where
  "completedState = (arcState 30 30)\<lparr>selectedStoryType := ''noir-detective''\<rparr>"

definition postArcSettings :: ext_settings where
  "postArcSettings = arcSettings\<lparr>epilogueEnabled := True, summaryEnabled := True\<rparr>"

section \<open>Properties\<close>

subsection \<open>Increments of safe integers\<close>

text \<open>
  Integers of magnitude up to \<open>2\<^sup>5\<^sup>3\<close> are binary64 values, so the increment of a safe
  integer is exact; the increment of \<open>2\<^sup>5\<^sup>3\<close> is not.
\<close>

lemma bitLength_bound: "n < 2 ^ k \<Longrightarrow> bitLength n \<le> int k"
proof (induction k arbitrary: n)
  case 0
  then have "n \<le> 0" by simp
  then show ?case
    by (subst bitLength.simps) simp
next
  case (Suc k)
  show ?case
  proof (cases "n \<le> 0")
    case True
    then show ?thesis
      by (subst bitLength.simps) simp
  next
    case False
    from Suc.prems have "n div 2 < 2 ^ k"
      by simp
    then have "bitLength (n div 2) \<le> int k"
      by (rule Suc.IH)
    with False show ?thesis
      by (subst bitLength.simps) simp
  qed
qed

lemma bitLength_1: "bitLength 1 = 1"
  by code_simp

lemma ilog2_int_bound:
  assumes "0 < n" and "n < 2 ^ 53"
  shows "ilog2 (of_int n) \<le> 52"
proof -
  have "bitLength n \<le> 53"
    using bitLength_bound [OF assms(2)] by simp
  then show ?thesis
    by (simp add: ilog2_def bitLength_1 Let_def)
qed

lemma roundHalfEven_int: "roundHalfEven (of_int k) = k"
  by (simp add: roundHalfEven_def)

lemma scaled_exact:
  assumes "e \<le> 0"
  shows "of_int (roundHalfEven (of_int m / pow2 e)) * pow2 e = (of_int m :: rat)"
proof -
  have p: "pow2 e = 1 / 2 ^ nat (- e)"
    using assms by (cases "e = 0") (simp_all add: pow2_def)
  have "of_int m / pow2 e = (of_int (m * 2 ^ nat (- e)) :: rat)"
    by (simp add: p)
  then have "roundHalfEven (of_int m / pow2 e) = m * 2 ^ nat (- e)"
    by (simp only: roundHalfEven_int)
  then show ?thesis
    by (simp add: p)
qed

lemma toDouble_pos_int:
  assumes "0 < n" and "n < 2 ^ 53"
  shows "toDouble (of_int n) = of_int n"
proof -
  have "ilog2 (of_int n) - 52 \<le> 0"
    using ilog2_int_bound [OF assms] by simp
  then have "of_int (roundHalfEven (of_int n / pow2 (ilog2 (of_int n) - 52)))
      * pow2 (ilog2 (of_int n) - 52) = (of_int n :: rat)"
    by (rule scaled_exact)
  then show ?thesis
    using assms(1) by (simp add: toDouble_def Let_def)
qed

lemma toDouble_2_53: "toDouble 9007199254740992 = 9007199254740992"
  by code_simp

lemma toDouble_int:
  assumes "\<bar>n\<bar> \<le> 2 ^ 53"
  shows "toDouble (of_int n) = of_int n"
proof -
  consider "n = 0" | "0 < n" "n < 2 ^ 53" | "n = 2 ^ 53" | "n < 0" "- n < 2 ^ 53" | "n = - (2 ^ 53)"
    using assms by linarith
  then show ?thesis
  proof cases
    case 1
    then show ?thesis by (simp add: toDouble_def)
  next
    case 2
    then show ?thesis by (rule toDouble_pos_int)
  next
    case 3
    then show ?thesis using toDouble_2_53 by simp
  next
    case 4
    then have "toDouble (of_int (- n)) = of_int (- n)"
      by (intro toDouble_pos_int) simp_all
    moreover have "toDouble (of_int n) = - toDouble (of_int (- n))"
      using 4(1) by (simp add: toDouble_def Let_def)
    ultimately show ?thesis by simp
  next
    case 5
    have "toDouble (- 9007199254740992) = - 9007199254740992"
      by code_simp
    with 5 show ?thesis by simp
  qed
qed

lemma increment_safe:
  assumes "isSafeInteger n"
  shows "increment n = n + 1"
proof -
  have "\<bar>n + 1\<bar> \<le> 2 ^ 53"
    using assms by (simp add: isSafeInteger_def)
  then have "toDouble (of_int (n + 1)) = of_int (n + 1)"
    by (rule toDouble_int)
  then show ?thesis
    by (simp add: increment_def)
qed

lemma increment_saturates: "increment (2 ^ 53) = 2 ^ 53"
  by code_simp

lemma increment_0: "increment 0 = 1"
  by (simp add: increment_safe isSafeInteger_def)

subsection \<open>Phase calculation\<close>

lemma getPhaseInfo_0_1:
  "getPhaseInfo 0 1 = \<lparr>phase = Setup, positionInPhase = 0, totalInPhase = 0,
     percentInPhase = NaN, phaseStart = 1, phaseEnd = 0\<rparr>"
  by code_simp

lemma getPhaseInfo_0_2:
  "getPhaseInfo 0 2 = \<lparr>phase = Setup, positionInPhase = 0, totalInPhase = 0,
     percentInPhase = NaN, phaseStart = 1, phaseEnd = 0\<rparr>"
  by code_simp

lemma getPhaseInfo_0_3:
  "getPhaseInfo 0 3 = \<lparr>phase = Setup, positionInPhase = 0, totalInPhase = 0,
     percentInPhase = NaN, phaseStart = 1, phaseEnd = 0\<rparr>"
  by code_simp

text \<open>
  Claim C4 (Scenario B). For an arc of 30 steps the boundaries are
  \<open>setupEnd = \<lfloor>30 * 0.33\<rfloor> = 9\<close> and \<open>confrontationEnd = \<lfloor>30 * 0.66\<rfloor> = 19\<close>, and
  \<open>getPhaseInfo 20 30\<close> is exactly: phase resolution, \<open>phaseStart = 20\<close>, \<open>phaseEnd = 30\<close>,
  \<open>positionInPhase = 1\<close>, \<open>totalInPhase = 11\<close>, \<open>percentInPhase = 9\<close>. The upper bounds are
  inclusive: step 9 is still setup and step 19 is still confrontation.
\<close>

theorem C4_scenario_B:
  "getPhaseInfo 20 30 =
     \<lparr>phase = Resolution, positionInPhase = 1, totalInPhase = 11,
      percentInPhase = Num 9, phaseStart = 20, phaseEnd = 30\<rparr>
   \<and> floorTimes 30 (33 / 100) = 9
   \<and> floorTimes 30 (66 / 100) = 19
   \<and> phase (getPhaseInfo 9 30) = Setup
   \<and> phase (getPhaseInfo 10 30) = Confrontation
   \<and> phase (getPhaseInfo 19 30) = Confrontation"
  by code_simp

text \<open>
  Claim C10. The quotient \<open>positionInPhase / totalInPhase\<close> is not guarded: for every arc
  length from 1 to 3 the setup boundary \<open>\<lfloor>arcLength * 0.33\<rfloor>\<close> is 0, so at step 0 the
  setup phase runs from 1 to 0, has \<open>totalInPhase = 0\<close>, and \<open>percentInPhase\<close> is the
  rounding of \<open>0 / 0\<close>: not a number.
\<close>

theorem C10_percent_not_a_number:
  assumes "0 < len" and "len \<le> 3"
  shows "getPhaseInfo 0 len =
           \<lparr>phase = Setup, positionInPhase = 0, totalInPhase = 0,
            percentInPhase = NaN, phaseStart = 1, phaseEnd = 0\<rparr>"
proof -
  from assms consider "len = 1" | "len = 2" | "len = 3"
    by linarith
  then show ?thesis
    by cases (simp_all add: getPhaseInfo_0_1 getPhaseInfo_0_2 getPhaseInfo_0_3)
qed

theorem C10_percent_not_a_number_witness:
  "(0::int) < 3 \<and> (3::int) \<le> 3 \<and> floorTimes 3 (33 / 100) = 0
   \<and> totalInPhase (getPhaseInfo 0 3) = 0 \<and> percentInPhase (getPhaseInfo 0 3) = NaN"
proof -
  have "floorTimes 3 (33 / 100) = 0"
    by code_simp
  then show ?thesis
    using C10_percent_not_a_number [of 3] by simp
qed

subsection \<open>Reading and writing the per-chat state\<close>

lemma getChatStoryState_world:
  "getChatStoryState w = (st, w1) \<Longrightarrow> w1 = w\<lparr>chatMetadata := Some st\<rparr>"
  by (auto simp: getChatStoryState_def Let_def split: option.splits)

lemma getChatStoryState_Some [simp]:
  "chatMetadata w = Some st \<Longrightarrow> getChatStoryState w = (st, w)"
  by (simp add: getChatStoryState_def)

lemma buildFullInjection_world:
  "snd (buildFullInjection w p) = snd (getChatStoryState w)"
  by (simp add: buildFullInjection_def Let_def split: prod.splits)

lemma updateStoryPrompt_Some:
  assumes "chatMetadata w = Some st"
  shows "\<exists>p. updateStoryPrompt w = w\<lparr>extensionPrompt := Some p\<rparr>"
proof -
  have "snd (buildFullInjection w False) = w"
    using assms by (simp add: buildFullInjection_world)
  then show ?thesis
    by (cases "buildFullInjection w False") (auto simp: updateStoryPrompt_def Let_def)
qed

lemma updateStatusDisplay_Some [simp]:
  "chatMetadata w = Some st \<Longrightarrow> updateStatusDisplay w = w"
  by (simp add: updateStatusDisplay_def)

subsection \<open>The message-received checkpoint\<close>

lemma counted_increment:
  assumes "data \<noteq> Some True" "\<not> isLoadingChat w" "\<not> isRegenerating w"
    "enabled (extension_settings w)" "storyArcEnabled (extension_settings w)"
    "getChatStoryState w = (st, w1)" "currentStep st < arcLength st"
  shows "\<exists>p. onMessageReceived e data w =
           Inr (w\<lparr>chatMetadata := Some (st\<lparr>currentStep := increment (currentStep st)\<rparr>),
                  savedMetadata := Some (st\<lparr>currentStep := increment (currentStep st)\<rparr>),
                  metadataUpdated := Suc (metadataUpdated w),
                  extensionPrompt := Some p\<rparr>)"
proof -
  let ?st1 = "st\<lparr>currentStep := increment (currentStep st)\<rparr>"
  have w1: "w1 = w\<lparr>chatMetadata := Some st\<rparr>"
    using assms(6) by (rule getChatStoryState_world)
  let ?w2 = "saveChatStoryState ?st1 w1"
  have md: "chatMetadata ?w2 = Some ?st1"
    by (simp add: saveChatStoryState_def)
  obtain p where p: "updateStoryPrompt ?w2 = ?w2\<lparr>extensionPrompt := Some p\<rparr>"
    using updateStoryPrompt_Some [OF md] by blast
  have "onMessageReceived e data w = Inr (?w2\<lparr>extensionPrompt := Some p\<rparr>)"
    using assms p md by (simp add: onMessageReceived_def Let_def)
  then show ?thesis
    by (auto simp: w1 saveChatStoryState_def intro!: exI [of _ p])
qed

lemma epilogueStep_keeps:
  assumes "chatMetadata w = Some st" "epilogueStep e settings (st, w) = (st', w')"
  shows "chatMetadata w' = Some st' \<and> currentStep st' = currentStep st
         \<and> arcLength st' = arcLength st"
  using assms
  by (auto simp: epilogueStep_def Let_def saveChatStoryState_def split: if_splits)

lemma summaryStep_keeps:
  assumes "chatMetadata w = Some st"
  shows "case summaryStep e settings (st, w) of
           Inl (err, w') \<Rightarrow> chatMetadata w' = Some st
         | Inr (st', w') \<Rightarrow> chatMetadata w' = Some st' \<and> currentStep st' = currentStep st
                             \<and> arcLength st' = arcLength st"
  using assms
  by (auto simp: summaryStep_def Let_def saveChatStoryState_def pushStoryMessage_def
           split: if_splits sum.splits)

lemma endNotice_metadata:
  "chatMetadata (endNotice e settings (st, w)) = chatMetadata w"
  by (simp add: endNotice_def pushStoryMessage_def)

lemma completionSequence_keeps:
  assumes "chatMetadata w = Some st"
  shows "\<exists>st'. chatMetadata (resultWorld (completionSequence e settings (st, w))) = Some st'
           \<and> currentStep st' = currentStep st \<and> arcLength st' = arcLength st"
proof -
  obtain st1 w1 where ep: "epilogueStep e settings (st, w) = (st1, w1)"
    by (cases "epilogueStep e settings (st, w)")
  from epilogueStep_keeps [OF assms ep]
  have k1: "chatMetadata w1 = Some st1" "currentStep st1 = currentStep st"
    "arcLength st1 = arcLength st"
    by simp_all
  show ?thesis
    using summaryStep_keeps [OF k1(1), of e settings] k1(2,3)
    by (auto simp: completionSequence_def resultWorld_def ep endNotice_metadata
             split: sum.splits prod.splits)
qed

text \<open>
  Claim C3. At a counted checkpoint (the message is not the user's, neither flag is set,
  the extension and the arc are enabled), with \<open>st\<close> the arc state the handler reads and
  its step count a safe integer: if \<open>currentStep < arcLength\<close> the handler completes,
  \<open>currentStep\<close> has grown by exactly one and the new state is both the chat's metadata and
  what was persisted; if \<open>currentStep > arcLength\<close> the handler completes and nothing
  changes (the state read is the chat's metadata). In every case, completed or rejected,
  the arc length is unchanged, \<open>currentStep \<le> arcLength\<close> is preserved, and an overrun
  step count is not raised.
\<close>

theorem C3_counted_checkpoint:
  assumes "data \<noteq> Some True" and "\<not> isLoadingChat w" and "\<not> isRegenerating w"
    and "enabled (extension_settings w)" and "storyArcEnabled (extension_settings w)"
    and "getChatStoryState w = (st, w1)"
    and safe: "isSafeInteger (currentStep st)"
  shows "(currentStep st < arcLength st \<longrightarrow>
            (\<exists>p. onMessageReceived e data w =
               Inr (w\<lparr>chatMetadata := Some (st\<lparr>currentStep := currentStep st + 1\<rparr>),
                      savedMetadata := Some (st\<lparr>currentStep := currentStep st + 1\<rparr>),
                      metadataUpdated := Suc (metadataUpdated w),
                      extensionPrompt := Some p\<rparr>)))
       \<and> (arcLength st < currentStep st \<longrightarrow>
            onMessageReceived e data w = Inr (w\<lparr>chatMetadata := Some st\<rparr>))
       \<and> (\<exists>st'. chatMetadata (resultWorld (onMessageReceived e data w)) = Some st'
             \<and> arcLength st' = arcLength st
             \<and> (currentStep st \<le> arcLength st \<longrightarrow> currentStep st' \<le> arcLength st')
             \<and> (arcLength st < currentStep st \<longrightarrow> currentStep st' = currentStep st))"
proof -
  note pre = assms(1-6)
  have inc: "increment (currentStep st) = currentStep st + 1"
    using safe by (rule increment_safe)
  have grows: "\<exists>p. onMessageReceived e data w =
               Inr (w\<lparr>chatMetadata := Some (st\<lparr>currentStep := currentStep st + 1\<rparr>),
                      savedMetadata := Some (st\<lparr>currentStep := currentStep st + 1\<rparr>),
                      metadataUpdated := Suc (metadataUpdated w),
                      extensionPrompt := Some p\<rparr>)"
    if lt: "currentStep st < arcLength st"
    using counted_increment [OF pre lt, of e] unfolding inc .
  have w1: "w1 = w\<lparr>chatMetadata := Some st\<rparr>"
    using assms(6) by (rule getChatStoryState_world)
  then have md: "chatMetadata w1 = Some st"
    by simp
  have stays: "onMessageReceived e data w = Inr (w\<lparr>chatMetadata := Some st\<rparr>)"
    if "arcLength st < currentStep st"
    using that pre by (simp add: onMessageReceived_def Let_def w1)
  consider (lt) "currentStep st < arcLength st" | (eq) "currentStep st = arcLength st"
    | (gt) "arcLength st < currentStep st"
    by linarith
  then have inv: "\<exists>st'. chatMetadata (resultWorld (onMessageReceived e data w)) = Some st'
             \<and> arcLength st' = arcLength st
             \<and> (currentStep st \<le> arcLength st \<longrightarrow> currentStep st' \<le> arcLength st')
             \<and> (arcLength st < currentStep st \<longrightarrow> currentStep st' = currentStep st)"
  proof cases
    case lt
    from grows [OF lt] obtain p where
      "onMessageReceived e data w =
         Inr (w\<lparr>chatMetadata := Some (st\<lparr>currentStep := currentStep st + 1\<rparr>),
                savedMetadata := Some (st\<lparr>currentStep := currentStep st + 1\<rparr>),
                metadataUpdated := Suc (metadataUpdated w),
                extensionPrompt := Some p\<rparr>)"
      by blast
    with lt show ?thesis
      by (simp add: resultWorld_def)
  next
    case eq
    with pre have "onMessageReceived e data w =
        completionSequence e (extension_settings w) (st, w1)"
      by (simp add: onMessageReceived_def Let_def)
    with completionSequence_keeps [OF md, of e "extension_settings w"] eq
    show ?thesis
      by auto
  next
    case gt
    with stays md w1 show ?thesis
      by (simp add: resultWorld_def)
  qed
  from grows stays inv show ?thesis
    by blast
qed

text \<open>
  Beyond the safe integers the step count does not grow: at \<open>2\<^sup>5\<^sup>3\<close>, below a larger arc
  length, a counted checkpoint stores the step count it read.
\<close>

lemma counted_increment_saturates:
  assumes "data \<noteq> Some True" "\<not> isLoadingChat w" "\<not> isRegenerating w"
    "enabled (extension_settings w)" "storyArcEnabled (extension_settings w)"
    "getChatStoryState w = (st, w1)" "currentStep st = 2 ^ 53" "2 ^ 53 < arcLength st"
  shows "stepOf (onMessageReceived e data w) = Some (2 ^ 53)"
proof -
  have lt: "currentStep st < arcLength st"
    using assms(7,8) by simp
  have sat: "increment 9007199254740992 = 9007199254740992"
    using increment_saturates by simp
  from counted_increment [OF assms(1-6) lt, of e] show ?thesis
    using assms(7) by (auto simp: stepOf_def resultWorld_def sat)
qed

lemmas scenario_defs = arcWorld_def arcState_def arcSettings_def defaultSettings_def
  openingMessage_def failingEnv_def postArcSettings_def stepOf_def resultWorld_def

lemmas handler_defs = onMessageReceived_def onMessageSwiped_def onGenerationStarted_def
  updateStoryPrompt_def updateStatusDisplay_def buildFullInjection_def storyArcParts_def
  authorStyleParts_def saveChatStoryState_def completionSequence_def epilogueStep_def
  summaryStep_def endNotice_def conditionsMet_def pushStoryMessage_def clearedPrompt_def
  getChatStoryState_def

theorem C3_counted_checkpoint_witness:
  "(None :: bool option) \<noteq> Some True
   \<and> \<not> isLoadingChat (arcWorld arcSettings 14 15)
   \<and> \<not> isRegenerating (arcWorld arcSettings 14 15)
   \<and> enabled (extension_settings (arcWorld arcSettings 14 15))
   \<and> storyArcEnabled (extension_settings (arcWorld arcSettings 14 15))
   \<and> getChatStoryState (arcWorld arcSettings 14 15) = (arcState 14 15, arcWorld arcSettings 14 15)
   \<and> isSafeInteger (currentStep (arcState 14 15))
   \<and> stepOf (onMessageReceived failingEnv None (arcWorld arcSettings 14 15)) = Some 15
   \<and> savedMetadata (resultWorld (onMessageReceived failingEnv None (arcWorld arcSettings 14 15)))
       = Some (arcState 15 15)
   \<and> onMessageReceived failingEnv None (arcWorld arcSettings 16 15)
       = Inr (arcWorld arcSettings 16 15)"
proof -
  have g: "getChatStoryState (arcWorld arcSettings n 15) = (arcState n 15, arcWorld arcSettings n 15)"
    for n
    by (simp add: arcWorld_def)
  have pre0: "(None :: bool option) \<noteq> Some True"
    by simp
  have pre: "\<not> isLoadingChat (arcWorld arcSettings n 15)"
    "\<not> isRegenerating (arcWorld arcSettings n 15)"
    "enabled (extension_settings (arcWorld arcSettings n 15))"
    "storyArcEnabled (extension_settings (arcWorld arcSettings n 15))" for n
    by (simp_all add: arcWorld_def arcSettings_def defaultSettings_def)
  have lt: "currentStep (arcState 14 15) < arcLength (arcState 14 15)"
    and gt: "arcLength (arcState 16 15) < currentStep (arcState 16 15)"
    by (simp_all add: arcState_def)
  have safe: "isSafeInteger (currentStep (arcState 14 15))"
    "isSafeInteger (currentStep (arcState 16 15))"
    by (simp_all add: arcState_def isSafeInteger_def)
  from C3_counted_checkpoint [OF pre0 pre [of 14] g [of 14] safe(1), where e = failingEnv] lt
  obtain p where r: "onMessageReceived failingEnv None (arcWorld arcSettings 14 15) =
      Inr ((arcWorld arcSettings 14 15)
        \<lparr>chatMetadata := Some ((arcState 14 15)\<lparr>currentStep := currentStep (arcState 14 15) + 1\<rparr>),
         savedMetadata := Some ((arcState 14 15)\<lparr>currentStep := currentStep (arcState 14 15) + 1\<rparr>),
         metadataUpdated := Suc (metadataUpdated (arcWorld arcSettings 14 15)),
         extensionPrompt := Some p\<rparr>)"
    by blast
  from C3_counted_checkpoint [OF pre0 pre [of 16] g [of 16] safe(2), where e = failingEnv] gt
  have r2: "onMessageReceived failingEnv None (arcWorld arcSettings 16 15) =
      Inr ((arcWorld arcSettings 16 15)\<lparr>chatMetadata := Some (arcState 16 15)\<rparr>)"
    by blast
  show ?thesis
    using pre0 pre [of 14] g [of 14] safe(1)
    by (simp add: r r2 stepOf_def resultWorld_def) (simp add: arcState_def arcWorld_def)
qed

subsection \<open>Regeneration and completion\<close>

text \<open>One-shot suppression, as long as no other signal touches the flag.\<close>

lemma suppressed_once:
  assumes "data \<noteq> Some True" and "\<not> isLoadingChat w" and "isRegenerating w"
  shows "onMessageReceived e data w = Inr (w\<lparr>isRegenerating := False\<rparr>)"
  using assms by (simp add: onMessageReceived_def)

text \<open>
  Claim C1. A swipe sets the regeneration flag, and a message-received signal that
  follows directly is suppressed once: the step stays at 0 and the next message is counted.
  When the host signals the start of the generation between the swipe and the message, on
  a chat that already has messages, the handler of that signal sets the flag back to
  false, and the regenerated message is counted: the step is 1.
\<close>

theorem C1_generation_started_resets_flag:
  "isRegenerating (onMessageSwiped (arcWorld arcSettings 0 30))
   \<and> \<not> isRegenerating (onGenerationStarted (onMessageSwiped (arcWorld arcSettings 0 30)))
   \<and> stepOf (run failingEnv [MessageSwiped, GenerationStarted, MessageReceived None]
               (arcWorld arcSettings 0 30)) = Some 1
   \<and> stepOf (run failingEnv [MessageSwiped, MessageReceived None]
               (arcWorld arcSettings 0 30)) = Some 0
   \<and> stepOf (run failingEnv [MessageSwiped, MessageReceived None, MessageReceived None]
               (arcWorld arcSettings 0 30)) = Some 1"
  by (simp add: scenario_defs handler_defs Let_def increment_0)

theorem C1_generation_started_resets_flag_witness:
  "stepOf (run failingEnv [MessageSwiped, GenerationStarted, MessageReceived None]
             (arcWorld arcSettings 0 30))
   \<noteq> stepOf (run failingEnv [MessageSwiped, MessageReceived None]
             (arcWorld arcSettings 0 30))"
  using C1_generation_started_resets_flag by simp

text \<open>
  With the epilogue and the summary disabled, every counted checkpoint at
  \<open>currentStep = arcLength\<close> appends the end-of-arc notice and nothing else.
\<close>

lemma notice_at_every_checkpoint:
  assumes "data \<noteq> Some True" and "\<not> isLoadingChat w" and "\<not> isRegenerating w"
    and "enabled (extension_settings w)" and "storyArcEnabled (extension_settings w)"
    and "\<not> epilogueEnabled (extension_settings w)" and "\<not> summaryEnabled (extension_settings w)"
    and "chatMetadata w = Some st" and "currentStep st = arcLength st"
  shows "onMessageReceived e data w = Inr (pushStoryMessage e NOTICE_TEXT w)"
  using assms
  by (simp add: onMessageReceived_def completionSequence_def epilogueStep_def summaryStep_def
        endNotice_def conditionsMet_def Let_def)

text \<open>
  Claim C2. With \<open>currentStep = arcLength = 10\<close> and the epilogue and the summary
  disabled, the first counted checkpoint appends the end-of-arc notice and nothing else.
  The step count stays at 10, and a second counted checkpoint appends the notice again:
  after two checkpoints the chat holds the notice twice.
\<close>

theorem C2_notice_appended_again:
  "map mes (chat (resultWorld (run failingEnv [MessageReceived None]
      (arcWorld arcSettings 10 10))))
   = [mes openingMessage, NOTICE_TEXT]
   \<and> stepOf (run failingEnv [MessageReceived None] (arcWorld arcSettings 10 10)) = Some 10
   \<and> map mes (chat (resultWorld (run failingEnv [MessageReceived None, MessageReceived None]
      (arcWorld arcSettings 10 10))))
   = [mes openingMessage, NOTICE_TEXT, NOTICE_TEXT]"
  by (simp add: scenario_defs handler_defs Let_def)

theorem C2_notice_appended_again_witness:
  "length (chat (resultWorld (run failingEnv [MessageReceived None, MessageReceived None]
      (arcWorld arcSettings 10 10)))) = 3"
proof -
  have "length (map mes (chat (resultWorld (run failingEnv
      [MessageReceived None, MessageReceived None] (arcWorld arcSettings 10 10))))) = 3"
    using C2_notice_appended_again by simp
  then show ?thesis
    by simp
qed

text \<open>
  The epilogue step on a failing collaborator: \<^verbatim>\<open>generateEpilogueForStory\<close> catches the
  exception and returns the empty string, the step appends nothing and leaves
  \<open>epilogueShown\<close> as it was, and the handler goes on with the summary step.
\<close>

lemma generateEpilogueForStory_failure:
  assumes "\<forall>request. generateRaw e request = Throws \<or> generateRaw e request = Returns None"
  shows "generateEpilogueForStory e w = []"
proof -
  let ?request = "\<lparr>prompt = epilogueUserPrompt
        (joinWith (nl @ nl) (map mes (sliceFrom (- 20) (storyMessages (chat w))))),
      systemPrompt = epilogueSystemPrompt, responseLength = None\<rparr>"
  from assms have "generateRaw e ?request = Throws \<or> generateRaw e ?request = Returns None"
    by blast
  then show ?thesis
    by (auto simp: generateEpilogueForStory_def Let_def)
qed

lemma epilogue_failure_skips_step:
  assumes "generateEpilogueForStory e w = []"
  shows "epilogueStep e settings (st, w) = (st, w)"
    and "completionSequence e settings (st, w) =
           (case summaryStep e settings (st, w) of
              Inl err \<Rightarrow> Inl err
            | Inr sw \<Rightarrow> Inr (endNotice e settings sw))"
  using assms by (simp_all add: epilogueStep_def completionSequence_def)

text \<open>
  Claim C9. At the completion checkpoint with the epilogue and the summary enabled and a
  collaborator that throws: the exception of the epilogue request is caught, no epilogue
  is appended and \<open>epilogueShown\<close> stays false, and the summary step is evaluated. The
  summary request is made outside any \<^verbatim>\<open>try\<close>, so its exception leaves
  \<^verbatim>\<open>onMessageReceived\<close>: the handler is rejected, with the state unchanged.
\<close>

theorem C9_exception_leaves_handler:
  "generateEpilogueForStory failingEnv (arcWorld postArcSettings 10 10) = []
   \<and> epilogueStep failingEnv postArcSettings (arcState 10 10, arcWorld postArcSettings 10 10)
       = (arcState 10 10, arcWorld postArcSettings 10 10)
   \<and> summarizeChatMainForStory failingEnv (arcWorld postArcSettings 10 10)
       = Inl GenerationFailed
   \<and> onMessageReceived failingEnv None (arcWorld postArcSettings 10 10)
       = Inl (GenerationFailed, arcWorld postArcSettings 10 10)"
  by (simp add: scenario_defs handler_defs Let_def generateEpilogueForStory_def
        summarizeChatMainForStory_def getStoryTextToSummarize_def storyMessages_def
        sliceFrom_def trim_def isSpace_def nl_def)

theorem C9_exception_leaves_handler_witness:
  "isl (onMessageReceived failingEnv None (arcWorld postArcSettings 10 10))"
  using C9_exception_leaves_handler by simp

subsection \<open>Sequential replacement and the specification's renderer\<close>

lemma tokenAt_SomeD:
  "tokenAt vars s = Some kv \<Longrightarrow> fst kv \<noteq> [] \<and> prefix (fst kv) s \<and> kv \<in> set vars"
  by (auto simp: tokenAt_def find_Some_iff)

lemma placeholderD:
  assumes "placeholder k"
  obtains n where "k = CHR ''{'' # n @ ''}''" and "CHR ''{'' \<notin> set n"
proof -
  from assms obtain t where k: "k = CHR ''{'' # t" and t: "t \<noteq> []" "CHR ''{'' \<notin> set t"
    and l: "last k = CHR ''}''"
    by (cases k) (auto simp: placeholder_def)
  from t l k have "t = butlast t @ ''}''"
    by (metis append_butlast_last_id last_ConsR)
  moreover have "CHR ''{'' \<notin> set (butlast t)"
    using t(2) by (meson in_set_butlastD)
  ultimately show thesis
    using that k by metis
qed

lemma placeholder_tokens: "k \<in> set recognizedTokens \<Longrightarrow> placeholder k"
  by (auto simp: recognizedTokens_def placeholder_def)

lemma digitChar_digit: "digitChar d \<in> set ''0123456789''"
  unfolding digitChar_def by (rule nth_mem) simp

lemma digitsOf_digits: "digitsOf n \<noteq> [] \<and> set (digitsOf n) \<subseteq> set ''0123456789''"
proof (induction n rule: digitsOf.induct)
  case (1 n)
  show ?case
  proof (cases "n < 10")
    case True
    then show ?thesis
      using digitChar_digit [of n] by (subst (1 2) digitsOf.simps) simp
  next
    case False
    then show ?thesis
      using 1 digitChar_digit [of n] by (subst (1 2) digitsOf.simps) simp
  qed
qed

lemma token_chars:
  "\<forall>k \<in> set recognizedTokens. \<forall>c \<in> set ''-0123456789''. c \<notin> set k"
  by code_simp

lemma plainValue_chars:
  assumes "v \<noteq> []" and "set v \<subseteq> set ''-0123456789''"
  shows "plainValue v"
proof -
  obtain c where c: "c \<in> set v"
    using assms(1) by (cases v) auto
  have "\<not> sublist v k" if "k \<in> set recognizedTokens" for k
  proof
    assume "sublist v k"
    then have "c \<in> set k"
      using c set_mono_sublist by blast
    moreover have "c \<in> set ''-0123456789''"
      using c assms(2) by blast
    ultimately show False
      using that token_chars by blast
  qed
  moreover have "CHR ''{'' \<notin> set v" "CHR ''}'' \<notin> set v"
    using assms(2) by auto
  ultimately show ?thesis
    using assms(1) by (simp add: plainValue_def)
qed

lemma digits_signed: "set ''0123456789'' \<subseteq> set ''-0123456789''"
  by (simp add: subset_insertI2)

lemma plainValue_showInt [simp]: "plainValue (showInt n)"
proof (rule plainValue_chars)
  show "showInt n \<noteq> []"
    using digitsOf_digits [of n] by (simp add: showInt_def)
  define S where "S = set ''-0123456789''"
  have d: "set (digitsOf m) \<subseteq> S" for m
    using digitsOf_digits [of m] digits_signed unfolding S_def by (meson subset_trans)
  have m: "CHR ''-'' \<in> S"
    by (simp add: S_def)
  have "set (showInt n) \<subseteq> S"
    using d [of n] d [of "- n"] m by (simp add: showInt_def)
  then show "set (showInt n) \<subseteq> set ''-0123456789''"
    by (simp only: S_def)
qed

lemma plainValue_NaN: "plainValue ''NaN''"
  by code_simp
lemma plainValue_Inf: "plainValue ''Infinity''"
  by code_simp
lemma plainValue_NegInf: "plainValue ''-Infinity''"
  by code_simp

lemma plainValue_showNum [simp]: "plainValue (showNum x)"
  by (cases x) (simp_all add: plainValue_NaN plainValue_Inf plainValue_NegInf)

lemma plainValue_setup: "plainValue ''setup''"
  by code_simp
lemma plainValue_confrontation: "plainValue ''confrontation''"
  by code_simp
lemma plainValue_resolution: "plainValue ''resolution''"
  by code_simp

lemma plainValue_phaseName [simp]: "plainValue (phaseName ph)"
  by (cases ph) (simp_all add: plainValue_setup plainValue_confrontation plainValue_resolution)


lemma replaceAll_skip:
  assumes "placeholder k" "CHR ''{'' \<notin> set u"
  shows "replaceAll k v (u @ t) = u @ replaceAll k v t"
proof -
  from assms(1) obtain n where k: "k = CHR ''{'' # n @ ''}''"
    by (rule placeholderD)
  show ?thesis
    using assms(2) by (induction u) (auto simp: k)
qed

lemma replaceAll_hit:
  assumes "k \<noteq> []"
  shows "replaceAll k v (k @ t) = v @ replaceAll k v t"
proof -
  obtain c cs where "k @ t = c # cs"
    using assms by (cases k) auto
  then show ?thesis
    using assms by (metis append_eq_conv_conj prefixI replaceAll.simps(2))
qed

lemma tokenAt_no_brace:
  assumes "\<forall>kv \<in> set vars. placeholder (fst kv)" "c \<noteq> CHR ''{''"
  shows "tokenAt vars (c # cs) = None"
proof -
  have "\<not> prefix (fst kv) (c # cs)" if "kv \<in> set vars" for kv
  proof -
    from that assms(1) have "placeholder (fst kv)"
      by blast
    then obtain n where "fst kv = CHR ''{'' # n @ ''}''"
      by (rule placeholderD)
    then show ?thesis
      using assms(2) by simp
  qed
  then show ?thesis
    by (auto simp: tokenAt_def find_None_iff)
qed

lemma renderSpec_skip:
  assumes "\<forall>kv \<in> set vars. placeholder (fst kv)" "CHR ''{'' \<notin> set u"
  shows "renderSpec vars (u @ t) = u @ renderSpec vars t"
  using assms by (induction u) (auto simp: tokenAt_no_brace)

lemma renderSpec_Nil [simp]: "renderSpec [] s = s"
  by (induction s) (auto simp: tokenAt_def)

lemma tokenAt_append:
  "tokenAt (vars @ [(k, v)]) s =
     (case tokenAt vars s of Some kv \<Rightarrow> Some kv
      | None \<Rightarrow> if k \<noteq> [] \<and> prefix k s then Some (k, v) else None)"
  by (induction vars) (auto simp: tokenAt_def)


lemma prefix_renderSpec:
  assumes "\<forall>kv \<in> set vars. snd kv \<noteq> [] \<and> CHR ''}'' \<notin> set (snd kv) \<and> \<not> sublist (snd kv) w"
    and "w = [] \<or> last w = CHR ''}''"
    and "prefix w (renderSpec vars s)"
  shows "prefix w s"
  using assms
proof (induction s arbitrary: w)
  case Nil
  then show ?case by simp
next
  case (Cons c cs)
  show ?case
  proof (cases w)
    case Nil
    then show ?thesis by simp
  next
    case (Cons x w')
    then have lastw: "last w = CHR ''}''" and wne: "w \<noteq> []"
      using Cons.prems(2) by auto
    show ?thesis
    proof (cases "tokenAt vars (c # cs)")
      case None
      then have "prefix (x # w') (c # renderSpec vars cs)"
        using Cons.prems(3) \<open>w = x # w'\<close> by simp
      then have xc: "x = c" and p: "prefix w' (renderSpec vars cs)"
        by simp_all
      have "\<forall>kv \<in> set vars. snd kv \<noteq> [] \<and> CHR ''}'' \<notin> set (snd kv) \<and> \<not> sublist (snd kv) w'"
        using Cons.prems(1) \<open>w = x # w'\<close> by (auto simp: sublist_Cons_right)
      moreover have "w' = [] \<or> last w' = CHR ''}''"
        using lastw \<open>w = x # w'\<close> by (auto split: if_splits)
      ultimately have "prefix w' cs"
        using Cons.IH p by blast
      then show ?thesis
        using xc \<open>w = x # w'\<close> by simp
    next
      case (Some kv)
      then have kv: "kv \<in> set vars"
        by (auto dest: tokenAt_SomeD)
      then have v: "snd kv \<noteq> []" "CHR ''}'' \<notin> set (snd kv)" "\<not> sublist (snd kv) w"
        using Cons.prems(1) by auto
      have "prefix w (snd kv @ renderSpec vars (drop (length (fst kv)) (c # cs)))"
        using Cons.prems(3) Some by simp
      then consider "prefix w (snd kv)" | us where "w = snd kv @ us"
        by (auto simp: prefix_append)
      then show ?thesis
      proof cases
        case 1
        then have "set w \<subseteq> set (snd kv)"
          by (rule set_mono_prefix)
        moreover have "CHR ''}'' \<in> set w"
          using lastw wne last_in_set by metis
        ultimately show ?thesis
          using v(2) by blast
      next
        case 2
        then have "sublist (snd kv) w"
          by simp
        then show ?thesis
          using v(3) by simp
      qed
    qed
  qed
qed

lemma replaceAll_renderSpec:
  assumes keys: "\<forall>kv \<in> set vars. placeholder (fst kv)"
    and vals: "\<forall>kv \<in> set vars. plainValue (snd kv)"
    and tok: "k \<in> set recognizedTokens"
  shows "replaceAll k v (renderSpec vars s) = renderSpec (vars @ [(k, v)]) s"
proof (induction s rule: length_induct)
  case (1 s)
  have k: "placeholder k"
    using tok by (rule placeholder_tokens)
  then obtain n where kn: "k = CHR ''{'' # n @ ''}''" and n: "CHR ''{'' \<notin> set n"
    by (rule placeholderD)
  have kne: "k \<noteq> []"
    using kn by simp
  show ?case
  proof (cases s)
    case Nil
    then show ?thesis by simp
  next
    case (Cons c cs)
    show ?thesis
    proof (cases "tokenAt vars s")
      case (Some kv)
      then have kv: "kv \<in> set vars" "fst kv \<noteq> []"
        by (auto dest: tokenAt_SomeD)
      let ?s' = "drop (length (fst kv)) s"
      have shorter: "length ?s' < length s"
        using kv(2) Cons by simp
      have "CHR ''{'' \<notin> set (snd kv)"
        using vals kv(1) by (auto simp: plainValue_def)
      then have skip: "replaceAll k v (snd kv @ renderSpec vars ?s') =
          snd kv @ replaceAll k v (renderSpec vars ?s')"
        using k by (intro replaceAll_skip)
      have "replaceAll k v (renderSpec vars s) =
              replaceAll k v (snd kv @ renderSpec vars ?s')"
        using Some Cons by simp
      also have "\<dots> = snd kv @ renderSpec (vars @ [(k, v)]) ?s'"
        using 1 shorter skip by simp
      also have "\<dots> = renderSpec (vars @ [(k, v)]) s"
        using Some Cons by (simp add: tokenAt_append)
      finally show ?thesis .
    next
      case None
      show ?thesis
      proof (cases "prefix k s")
        case True
        then obtain s' where s': "s = k @ s'"
          by (auto simp: prefix_def)
        have shorter: "length s' < length s"
          using s' kne by simp
        have cs: "c = CHR ''{''" "cs = n @ ''}'' @ s'"
          using s' kn Cons by auto
        have "renderSpec vars ((n @ ''}'') @ s') = (n @ ''}'') @ renderSpec vars s'"
          using keys n by (intro renderSpec_skip) auto
        then have "renderSpec vars s = k @ renderSpec vars s'"
          using None Cons cs kn by simp
        then have "replaceAll k v (renderSpec vars s) = v @ replaceAll k v (renderSpec vars s')"
          using kne by (simp add: replaceAll_hit)
        also have "\<dots> = v @ renderSpec (vars @ [(k, v)]) s'"
          using 1 shorter by simp
        also have "\<dots> = renderSpec (vars @ [(k, v)]) s"
        proof -
          have "drop (length k) (c # cs) = s'"
            using s' Cons by (metis append_eq_conv_conj)
          then show ?thesis
            using None True Cons kne by (simp add: tokenAt_append)
        qed
        finally show ?thesis .
      next
        case False
        have nopre: "\<not> prefix k (c # renderSpec vars cs)"
        proof
          assume pre: "prefix k (c # renderSpec vars cs)"
          then have c: "c = CHR ''{''" and p: "prefix (n @ ''}'') (renderSpec vars cs)"
            using kn by simp_all
          have "\<not> sublist (snd kv) (n @ ''}'')" if "kv \<in> set vars" for kv
          proof -
            have "\<not> sublist (snd kv) k"
              using vals that tok by (auto simp: plainValue_def)
            then show ?thesis
              using kn by (simp add: sublist_Cons_right)
          qed
          then have "\<forall>kv \<in> set vars. snd kv \<noteq> [] \<and> CHR ''}'' \<notin> set (snd kv)
                  \<and> \<not> sublist (snd kv) (n @ ''}'')"
            using vals by (auto simp: plainValue_def)
          moreover have "n @ ''}'' = [] \<or> last (n @ ''}'') = CHR ''}''"
            by simp
          ultimately have "prefix (n @ ''}'') cs"
            using p by (rule prefix_renderSpec)
          then have "prefix k s"
            using c kn Cons by simp
          then show False
            using False by simp
        qed
        have "replaceAll k v (renderSpec vars s) = replaceAll k v (c # renderSpec vars cs)"
          using None Cons by simp
        also have "\<dots> = c # replaceAll k v (renderSpec vars cs)"
          using nopre by simp
        also have "\<dots> = c # renderSpec (vars @ [(k, v)]) cs"
          using 1 Cons by simp
        also have "\<dots> = renderSpec (vars @ [(k, v)]) s"
          using None False Cons by (simp add: tokenAt_append)
        finally show ?thesis .
      qed
    qed
  qed
qed

lemma progressText_renderSpec:
  "progressText storyType phaseInfo chatState =
     renderSpec (templateVariables (currentStep chatState + 1) (arcLength chatState) phaseInfo)
       (progressTemplate storyType)"
proof -
  have toks: "''{currentStep}'' \<in> set recognizedTokens" "''{arcLength}'' \<in> set recognizedTokens"
    "''{arcPercent}'' \<in> set recognizedTokens" "''{phase}'' \<in> set recognizedTokens"
    "''{positionInPhase}'' \<in> set recognizedTokens" "''{totalInPhase}'' \<in> set recognizedTokens"
    "''{phasePercent}'' \<in> set recognizedTokens" "''{phaseStart}'' \<in> set recognizedTokens"
    "''{phaseEnd}'' \<in> set recognizedTokens"
    by (simp_all add: recognizedTokens_def)
  note ph = toks [THEN placeholder_tokens]
  have start: "progressTemplate storyType = renderSpec [] (progressTemplate storyType)"
    by simp
  show ?thesis
    unfolding progressText_def templateVariables_def Let_def
    by (subst start) (simp add: replaceAll_renderSpec toks ph del: renderSpec_Nil)
qed

lemma renderSpec_without_tokens:
  assumes "\<forall>kv \<in> set vars. fst kv \<in> set recognizedTokens"
    and "\<forall>k \<in> set recognizedTokens. \<not> sublist k s"
  shows "renderSpec vars s = s"
  using assms(2)
proof (induction s)
  case Nil
  then show ?case by simp
next
  case (Cons c cs)
  have "tokenAt vars (c # cs) = None"
  proof (cases "tokenAt vars (c # cs)")
    case (Some kv)
    then have "fst kv \<in> set recognizedTokens" "prefix (fst kv) (c # cs)"
      using assms(1) by (auto dest: tokenAt_SomeD)
    then have "sublist (fst kv) (c # cs)" "\<not> sublist (fst kv) (c # cs)"
      using Cons.prems by (auto simp: sublist_Cons_right)
    then show ?thesis
      by simp
  qed simp
  moreover have "\<forall>k \<in> set recognizedTokens. \<not> sublist k cs"
    using Cons.prems by (auto simp: sublist_Cons_right)
  ultimately show ?case
    using Cons.IH by simp
qed

lemma renderSpec_no_token_left:
  assumes keys: "\<forall>kv \<in> set vars. placeholder (fst kv)"
    and vals: "\<forall>kv \<in> set vars. plainValue (snd kv)"
    and tok: "k \<in> set recognizedTokens"
    and bound: "k \<in> fst ` set vars"
  shows "\<not> sublist k (renderSpec vars s)"
proof (induction s rule: length_induct)
  case (1 s)
  have k: "placeholder k"
    using tok by (rule placeholder_tokens)
  then obtain n where kn: "k = CHR ''{'' # n @ ''}''" and n: "CHR ''{'' \<notin> set n"
    by (rule placeholderD)
  show ?case
  proof (cases s)
    case Nil
    then show ?thesis
      using kn by simp
  next
    case (Cons c cs)
    show ?thesis
    proof (cases "tokenAt vars s")
      case None
      have "\<not> prefix k (c # renderSpec vars cs)"
      proof
        assume pre: "prefix k (c # renderSpec vars cs)"
        then have c: "c = CHR ''{''" and p: "prefix (n @ ''}'') (renderSpec vars cs)"
          using kn by simp_all
        have "\<not> sublist (snd kv) (n @ ''}'')" if "kv \<in> set vars" for kv
        proof -
          have "\<not> sublist (snd kv) k"
            using vals that tok by (auto simp: plainValue_def)
          then show ?thesis
            using kn by (simp add: sublist_Cons_right)
        qed
        then have "\<forall>kv \<in> set vars. snd kv \<noteq> [] \<and> CHR ''}'' \<notin> set (snd kv)
                \<and> \<not> sublist (snd kv) (n @ ''}'')"
          using vals by (auto simp: plainValue_def)
        moreover have "n @ ''}'' = [] \<or> last (n @ ''}'') = CHR ''}''"
          by simp
        ultimately have "prefix (n @ ''}'') cs"
          using p by (rule prefix_renderSpec)
        then have pk: "prefix k s"
          using c kn Cons by simp
        obtain kv where "kv \<in> set vars" "fst kv = k"
          using bound by auto
        then have "kv \<in> set vars \<and> fst kv \<noteq> [] \<and> prefix (fst kv) s"
          using pk kn by simp
        then have "\<exists>x. x \<in> set vars \<and> fst x \<noteq> [] \<and> prefix (fst x) s"
          by (rule exI)
        then have "tokenAt vars s \<noteq> None"
          by (simp add: tokenAt_def find_None_iff)
        then show False
          using None by simp
      qed
      moreover have "\<not> sublist k (renderSpec vars cs)"
        using 1 Cons by simp
      ultimately show ?thesis
        using None Cons by (simp add: sublist_Cons_right)
    next
      case (Some kv)
      then have kv: "kv \<in> set vars" "fst kv \<noteq> []"
        by (auto dest: tokenAt_SomeD)
      let ?s' = "drop (length (fst kv)) s"
      have shorter: "length ?s' < length s"
        using kv(2) Cons by simp
      have nob: "CHR ''{'' \<notin> set (snd kv)"
        using vals kv(1) by (auto simp: plainValue_def)
      have rest: "\<not> sublist k (renderSpec vars ?s')"
        using 1 shorter by simp
      have "\<not> sublist k (snd kv @ renderSpec vars ?s')"
      proof
        assume "sublist k (snd kv @ renderSpec vars ?s')"
        then consider "sublist k (snd kv)" | "sublist k (renderSpec vars ?s')"
          | k1 k2 where "k = k1 @ k2" "suffix k1 (snd kv)" "prefix k2 (renderSpec vars ?s')"
          by (auto simp: sublist_append)
        then show False
        proof cases
          case 1
          then have "set k \<subseteq> set (snd kv)"
            by (rule set_mono_sublist)
          then show False
            using nob kn by auto
        next
          case 2
          then show False
            using rest by simp
        next
          case 3
          show False
          proof (cases k1)
            case Nil
            then have "sublist k (renderSpec vars ?s')"
              using 3 by (auto simp: sublist_def prefix_def intro: exI [of _ "[]"])
            then show False
              using rest by simp
          next
            case (Cons x xs)
            then have "x = CHR ''{''"
              using 3(1) kn by simp
            moreover have "x \<in> set (snd kv)"
              using 3(2) Cons set_mono_suffix by fastforce
            ultimately show False
              using nob by simp
          qed
        qed
      qed
      then show ?thesis
        using Some Cons by simp
    qed
  qed
qed

lemma progressText_no_token_left:
  assumes "k \<in> set recognizedTokens"
  shows "\<not> sublist k (progressText storyType phaseInfo chatState)"
proof -
  let ?vars = "templateVariables (currentStep chatState + 1) (arcLength chatState) phaseInfo"
  have keys: "\<forall>kv \<in> set ?vars. fst kv \<in> set recognizedTokens"
    by (simp add: templateVariables_def recognizedTokens_def)
  then have ph: "\<forall>kv \<in> set ?vars. placeholder (fst kv)"
    using placeholder_tokens by blast
  have vals: "\<forall>kv \<in> set ?vars. plainValue (snd kv)"
    by (simp add: templateVariables_def)
  have "fst ` set ?vars = set recognizedTokens"
    by (simp add: templateVariables_def recognizedTokens_def)
  then have "k \<in> fst ` set ?vars"
    using assms by simp
  with ph vals assms have "\<not> sublist k (renderSpec ?vars (progressTemplate storyType))"
    by (rule renderSpec_no_token_left)
  then show ?thesis
    by (simp add: progressText_renderSpec)
qed

lemma progressText_without_tokens:
  assumes "\<forall>k \<in> set recognizedTokens. \<not> sublist k (progressTemplate storyType)"
  shows "progressText storyType phaseInfo chatState = progressTemplate storyType"
proof -
  let ?vars = "templateVariables (currentStep chatState + 1) (arcLength chatState) phaseInfo"
  have keys: "\<forall>kv \<in> set ?vars. fst kv \<in> set recognizedTokens"
    by (simp add: templateVariables_def recognizedTokens_def)
  then show ?thesis
    using assms by (simp add: progressText_renderSpec renderSpec_without_tokens)
qed

lemma showInt_3: "showInt 3 = ''3''"
  by code_simp

lemma showInt_10: "showInt 10 = ''10''"
  by code_simp

text \<open>
  Claim C6. The nine chained global replacements of \<^verbatim>\<open>buildPhaseInjection\<close> compute
  the specification's renderer, for every template and all values: every occurrence of
  each recognized token is replaced by its value and everything else is copied. No
  recognized token is left in the result, and a template in which no recognized token
  occurs is returned as it is. On the template of Scenario D, with the step to render 3
  and the arc length 10, the result is \<open>3/10 - {unknownToken}\<close>; a token that occurs
  twice is replaced twice.
\<close>

theorem C6_template_rendering:
  "progressText storyType phaseInfo chatState =
     renderSpec (templateVariables (currentStep chatState + 1) (arcLength chatState) phaseInfo)
       (progressTemplate storyType)
   \<and> (\<forall>k \<in> set recognizedTokens. \<not> sublist k (progressText storyType phaseInfo chatState))
   \<and> ((\<forall>k \<in> set recognizedTokens. \<not> sublist k (progressTemplate storyType)) \<longrightarrow>
        progressText storyType phaseInfo chatState = progressTemplate storyType)
   \<and> progressText (storyType\<lparr>progressTemplate := ''{currentStep}/{arcLength} - {unknownToken}''\<rparr>)
        phaseInfo (chatState\<lparr>currentStep := 2, arcLength := 10\<rparr>)
      = ''3/10 - {unknownToken}''
   \<and> progressText (storyType\<lparr>progressTemplate := ''{currentStep} of {arcLength}, {currentStep}!''\<rparr>)
        phaseInfo (chatState\<lparr>currentStep := 2, arcLength := 10\<rparr>)
      = ''3 of 10, 3!''"
proof (intro conjI)
  show "progressText storyType phaseInfo chatState =
     renderSpec (templateVariables (currentStep chatState + 1) (arcLength chatState) phaseInfo)
       (progressTemplate storyType)"
    by (rule progressText_renderSpec)
  show "\<forall>k \<in> set recognizedTokens. \<not> sublist k (progressText storyType phaseInfo chatState)"
    using progressText_no_token_left by blast
  show "(\<forall>k \<in> set recognizedTokens. \<not> sublist k (progressTemplate storyType)) \<longrightarrow>
        progressText storyType phaseInfo chatState = progressTemplate storyType"
    using progressText_without_tokens by blast
  show "progressText (storyType\<lparr>progressTemplate := ''{currentStep}/{arcLength} - {unknownToken}''\<rparr>)
        phaseInfo (chatState\<lparr>currentStep := 2, arcLength := 10\<rparr>)
      = ''3/10 - {unknownToken}''"
    by (simp add: progressText_renderSpec templateVariables_def tokenAt_def showInt_3 showInt_10)
  show "progressText (storyType\<lparr>progressTemplate := ''{currentStep} of {arcLength}, {currentStep}!''\<rparr>)
        phaseInfo (chatState\<lparr>currentStep := 2, arcLength := 10\<rparr>)
      = ''3 of 10, 3!''"
    by (simp add: progressText_renderSpec templateVariables_def tokenAt_def showInt_3 showInt_10)
qed

lemma unknown_only_template:
  "\<forall>k \<in> set recognizedTokens. \<not> sublist k ''Chapter {chapter}: {unknownToken}''"
  by code_simp

lemma scenario_D_tokens:
  "\<forall>k \<in> set recognizedTokens. \<not> sublist k ''3/10 - {unknownToken}''"
  by code_simp

theorem C6_template_rendering_witness:
  "list_all (\<lambda>k. \<not> sublist k ''Chapter {chapter}: {unknownToken}'') recognizedTokens
   \<and> progressText (noirType\<lparr>progressTemplate := ''Chapter {chapter}: {unknownToken}''\<rparr>)
        (getPhaseInfo 3 10) (arcState 2 10)
      = ''Chapter {chapter}: {unknownToken}''
   \<and> progressText (noirType\<lparr>progressTemplate := ''{currentStep}/{arcLength} - {unknownToken}''\<rparr>)
        (getPhaseInfo 3 10) (arcState 2 10)
      = ''3/10 - {unknownToken}''
   \<and> list_all (\<lambda>k. \<not> sublist k ''3/10 - {unknownToken}'') recognizedTokens"
proof -
  let ?plain = "noirType\<lparr>progressTemplate := ''Chapter {chapter}: {unknownToken}''\<rparr>"
  have t: "progressTemplate ?plain = ''Chapter {chapter}: {unknownToken}''"
    by simp
  from C6_template_rendering [of ?plain "getPhaseInfo 3 10" "arcState 2 10"]
  have "(\<forall>k \<in> set recognizedTokens. \<not> sublist k (progressTemplate ?plain)) \<longrightarrow>
      progressText ?plain (getPhaseInfo 3 10) (arcState 2 10) = progressTemplate ?plain"
    by (rule conjunct1 [OF conjunct2 [OF conjunct2]])
  then have unchanged: "progressText ?plain (getPhaseInfo 3 10) (arcState 2 10) =
      ''Chapter {chapter}: {unknownToken}''"
    using unknown_only_template unfolding t by (rule mp)
  have st: "(arcState 2 10)\<lparr>currentStep := 2, arcLength := 10\<rparr> = arcState 2 10"
    by (simp add: arcState_def)
  from C6_template_rendering [of noirType "getPhaseInfo 3 10" "arcState 2 10"]
  have "progressText (noirType\<lparr>progressTemplate := ''{currentStep}/{arcLength} - {unknownToken}''\<rparr>)
        (getPhaseInfo 3 10) ((arcState 2 10)\<lparr>currentStep := 2, arcLength := 10\<rparr>)
      = ''3/10 - {unknownToken}''"
    by (rule conjunct1 [OF conjunct2 [OF conjunct2 [OF conjunct2]]])
  then have scenario: "progressText
        (noirType\<lparr>progressTemplate := ''{currentStep}/{arcLength} - {unknownToken}''\<rparr>)
        (getPhaseInfo 3 10) (arcState 2 10)
      = ''3/10 - {unknownToken}''"
    unfolding st .
  show ?thesis
    using unknown_only_template unchanged scenario scenario_D_tokens
    by (simp add: list_all_iff)
qed

subsection \<open>Composition of the injection\<close>





text \<open>
  The first block in closed form: the segment is that of the next step, and it is emitted
  exactly when the arc is enabled, a story type is selected and found, and the arc is
  not complete or the call is a preview.
\<close>

lemma storyArcParts_emitted:
  "storyArcParts settings types chatState isPreview =
     (if storyArcEnabled settings \<and> selectedStoryType chatState \<noteq> []
         \<and> (currentStep chatState < arcLength chatState \<or> isPreview)
      then (case find (\<lambda>t. story_type.id t = selectedStoryType chatState) types of
              None \<Rightarrow> []
            | Some storyType \<Rightarrow>
                [specStorySegment settings storyType (currentStep chatState + 1)
                   (arcLength chatState)])
      else [])"
  by (auto simp: storyArcParts_def specStorySegment_def buildPhaseInjection_def
        buildStoryBlueprint_def progressText_renderSpec Let_def
      split: option.splits)

lemma buildFullInjection_enabled:
  assumes "enabled (extension_settings w)"
  shows "fst (buildFullInjection w isPreview) =
     joinWith (nl @ nl)
       (storyArcParts (extension_settings w) (storyTypes w) (fst (getChatStoryState w)) isPreview
        @ authorStyleParts (extension_settings w) (authorStyles w) (fst (getChatStoryState w)))"
proof -
  obtain st w1 where g: "getChatStoryState w = (st, w1)"
    by (cases "getChatStoryState w")
  then have "w1 = w\<lparr>chatMetadata := Some st\<rparr>"
    by (rule getChatStoryState_world)
  then show ?thesis
    using assms by (simp add: buildFullInjection_def Let_def g)
qed

text \<open>
  Claim C7. With the extension disabled the composed injection is empty, whatever the
  state, the catalog and the preview flag. With the extension enabled, a preview emits
  the story-arc segment exactly when the arc is enabled and a story type is selected and
  found, whatever the step count, followed by the author-style block, which does not
  depend on the flag; the live injection of a completed arc
  (\<open>currentStep \<ge> arcLength\<close>) has the author-style block only. So the preview flag
  replaces the check \<open>currentStep < arcLength\<close> and nothing else: where that check
  holds, the preview and the live injection are the same, and the flag never changes the
  state left behind.
\<close>

theorem C7_disabled_injection_empty:
  "(\<not> enabled (extension_settings w) \<longrightarrow> fst (buildFullInjection w isPreview) = [])
   \<and> (currentStep (fst (getChatStoryState w)) < arcLength (fst (getChatStoryState w))
        \<longrightarrow> buildFullInjection w True = buildFullInjection w False)
   \<and> snd (buildFullInjection w True) = snd (buildFullInjection w False)
   \<and> (enabled (extension_settings w) \<longrightarrow>
        fst (buildFullInjection w True) =
          joinWith (nl @ nl)
            ((if storyArcEnabled (extension_settings w)
                 \<and> selectedStoryType (fst (getChatStoryState w)) \<noteq> []
              then (case find (\<lambda>t. story_type.id t = selectedStoryType (fst (getChatStoryState w)))
                           (storyTypes w) of
                      None \<Rightarrow> []
                    | Some storyType \<Rightarrow>
                        [specStorySegment (extension_settings w) storyType
                           (currentStep (fst (getChatStoryState w)) + 1)
                           (arcLength (fst (getChatStoryState w)))])
              else [])
             @ authorStyleParts (extension_settings w) (authorStyles w)
                 (fst (getChatStoryState w))))
   \<and> (enabled (extension_settings w)
        \<and> arcLength (fst (getChatStoryState w)) \<le> currentStep (fst (getChatStoryState w))
        \<longrightarrow> fst (buildFullInjection w False) =
              joinWith (nl @ nl)
                (authorStyleParts (extension_settings w) (authorStyles w)
                   (fst (getChatStoryState w))))"
proof (intro conjI impI)
  obtain st w1 where g: "getChatStoryState w = (st, w1)"
    by (cases "getChatStoryState w")
  have same: "storyArcParts (extension_settings w) (storyTypes w1) st True =
        storyArcParts (extension_settings w) (storyTypes w1) st False"
    if "currentStep st < arcLength st"
    using that by (simp add: storyArcParts_def split: option.splits)
  show "fst (buildFullInjection w isPreview) = []" if "\<not> enabled (extension_settings w)"
    using that by (simp add: buildFullInjection_def g Let_def)
  show "buildFullInjection w True = buildFullInjection w False"
    if "currentStep (fst (getChatStoryState w)) < arcLength (fst (getChatStoryState w))"
    using that same by (simp add: buildFullInjection_def g Let_def)
  show "snd (buildFullInjection w True) = snd (buildFullInjection w False)"
    by (simp add: buildFullInjection_def g Let_def)
next
  assume "enabled (extension_settings w)"
  then show "fst (buildFullInjection w True) =
          joinWith (nl @ nl)
            ((if storyArcEnabled (extension_settings w)
                 \<and> selectedStoryType (fst (getChatStoryState w)) \<noteq> []
              then (case find (\<lambda>t. story_type.id t = selectedStoryType (fst (getChatStoryState w)))
                           (storyTypes w) of
                      None \<Rightarrow> []
                    | Some storyType \<Rightarrow>
                        [specStorySegment (extension_settings w) storyType
                           (currentStep (fst (getChatStoryState w)) + 1)
                           (arcLength (fst (getChatStoryState w)))])
              else [])
             @ authorStyleParts (extension_settings w) (authorStyles w)
                 (fst (getChatStoryState w)))"
    by (simp add: buildFullInjection_enabled storyArcParts_emitted)
next
  assume a: "enabled (extension_settings w)
        \<and> arcLength (fst (getChatStoryState w)) \<le> currentStep (fst (getChatStoryState w))"
  then have "storyArcParts (extension_settings w) (storyTypes w) (fst (getChatStoryState w)) False
      = []"
    by (simp add: storyArcParts_emitted)
  with a show "fst (buildFullInjection w False) =
              joinWith (nl @ nl)
                (authorStyleParts (extension_settings w) (authorStyles w)
                   (fst (getChatStoryState w)))"
    by (simp add: buildFullInjection_enabled)
qed

lemma completed_segment:
  "specStorySegment arcSettings noirType 31 30 =
     ''<story>'' @ nl @ ''A weary detective takes one last case.'' @ nl @ nl
     @ ''Step 31/30, phase resolution.'' @ nl @ nl @ ''Close the case.'' @ nl @ ''</story>''"
  by code_simp

theorem C7_disabled_injection_empty_witness:
  "\<not> enabled (extension_settings (catalogWorld (defaultSettings\<lparr>storyArcEnabled := True, authorStyleEnabled := True\<rparr>)
       ((arcState 30 30)\<lparr>selectedStoryType := ''noir-detective'', selectedAuthorStyle := ''terse''\<rparr>)))
   \<and> fst (buildFullInjection (catalogWorld (defaultSettings\<lparr>storyArcEnabled := True, authorStyleEnabled := True\<rparr>)
       ((arcState 30 30)\<lparr>selectedStoryType := ''noir-detective'', selectedAuthorStyle := ''terse''\<rparr>)) True) = []
   \<and> currentStep (fst (getChatStoryState (catalogWorld arcSettings (arcState 3 30))))
       < arcLength (fst (getChatStoryState (catalogWorld arcSettings (arcState 3 30))))
   \<and> buildFullInjection (catalogWorld arcSettings (arcState 3 30)) True
       = buildFullInjection (catalogWorld arcSettings (arcState 3 30)) False
   \<and> enabled (extension_settings (catalogWorld arcSettings completedState))
   \<and> arcLength (fst (getChatStoryState (catalogWorld arcSettings completedState)))
       \<le> currentStep (fst (getChatStoryState (catalogWorld arcSettings completedState)))
   \<and> fst (buildFullInjection (catalogWorld arcSettings completedState) True) =
       ''<story>'' @ nl @ ''A weary detective takes one last case.'' @ nl @ nl
       @ ''Step 31/30, phase resolution.'' @ nl @ nl @ ''Close the case.'' @ nl @ ''</story>''
   \<and> fst (buildFullInjection (catalogWorld arcSettings completedState) False) = []"
proof -
  let ?w = "catalogWorld (defaultSettings\<lparr>storyArcEnabled := True, authorStyleEnabled := True\<rparr>)
       ((arcState 30 30)\<lparr>selectedStoryType := ''noir-detective'', selectedAuthorStyle := ''terse''\<rparr>)"
  let ?c = "catalogWorld arcSettings completedState"
  have off: "\<not> enabled (extension_settings ?w)"
    by (simp add: catalogWorld_def defaultSettings_def)
  have lt: "currentStep (fst (getChatStoryState (catalogWorld arcSettings (arcState 3 30))))
       < arcLength (fst (getChatStoryState (catalogWorld arcSettings (arcState 3 30))))"
    by (simp add: catalogWorld_def arcState_def)
  have first: "fst (buildFullInjection ?w True) = []"
    "buildFullInjection (catalogWorld arcSettings (arcState 3 30)) True
       = buildFullInjection (catalogWorld arcSettings (arcState 3 30)) False"
    using off lt C7_disabled_injection_empty [of ?w True]
      C7_disabled_injection_empty [of "catalogWorld arcSettings (arcState 3 30)" True]
    by simp_all
  have g: "fst (getChatStoryState ?c) = completedState"
    by (simp add: catalogWorld_def)
  have on: "enabled (extension_settings ?c)" "storyArcEnabled (extension_settings ?c)"
    "extension_settings ?c = arcSettings"
    by (simp_all add: catalogWorld_def arcSettings_def defaultSettings_def)
  have complete: "arcLength (fst (getChatStoryState ?c)) \<le> currentStep (fst (getChatStoryState ?c))"
    unfolding g by (simp add: completedState_def arcState_def)
  have sel: "selectedStoryType completedState \<noteq> []"
    "find (\<lambda>t. story_type.id t = selectedStoryType completedState) (storyTypes ?c) = Some noirType"
    "currentStep completedState + 1 = 31" "arcLength completedState = 30"
    by (simp_all add: completedState_def arcState_def catalogWorld_def noirType_def)
  have style: "authorStyleParts arcSettings (authorStyles ?c) completedState = []"
    by (simp add: authorStyleParts_def arcSettings_def defaultSettings_def)
  from C7_disabled_injection_empty [of ?c True] on(1)
  have "fst (buildFullInjection ?c True) =
          joinWith (nl @ nl)
            ((if storyArcEnabled (extension_settings ?c)
                 \<and> selectedStoryType (fst (getChatStoryState ?c)) \<noteq> []
              then (case find (\<lambda>t. story_type.id t = selectedStoryType (fst (getChatStoryState ?c)))
                           (storyTypes ?c) of
                      None \<Rightarrow> []
                    | Some storyType \<Rightarrow>
                        [specStorySegment (extension_settings ?c) storyType
                           (currentStep (fst (getChatStoryState ?c)) + 1)
                           (arcLength (fst (getChatStoryState ?c)))])
              else [])
             @ authorStyleParts (extension_settings ?c) (authorStyles ?c)
                 (fst (getChatStoryState ?c)))"
    by blast
  then have preview: "fst (buildFullInjection ?c True) =
       ''<story>'' @ nl @ ''A weary detective takes one last case.'' @ nl @ nl
       @ ''Step 31/30, phase resolution.'' @ nl @ nl @ ''Close the case.'' @ nl @ ''</story>''"
    unfolding g on(3) by (simp add: sel style completed_segment on(2) [unfolded on(3)])
  from C7_disabled_injection_empty [of ?c True] on(1) complete
  have "fst (buildFullInjection ?c False) =
              joinWith (nl @ nl)
                (authorStyleParts (extension_settings ?c) (authorStyles ?c)
                   (fst (getChatStoryState ?c)))"
    by blast
  then have live: "fst (buildFullInjection ?c False) = []"
    unfolding g on(3) by (simp add: style)
  show ?thesis
    using off lt first on(1) complete preview live by (intro conjI)
qed

text \<open>
  Claim C8. With the extension enabled: if the selected story type is not in the catalog,
  the injection consists of the author-style block alone, and when a style is enabled,
  selected and found it is exactly that style's segment; if the selected author style is
  not in the catalog, the injection consists of the story-arc block alone. The composition
  is a total function: no case raises an error.
\<close>

theorem C8_dangling_ids:
  assumes "enabled (extension_settings w)" and "getChatStoryState w = (st, w1)"
  shows "(find (\<lambda>t. story_type.id t = selectedStoryType st) (storyTypes w) = None \<longrightarrow>
            fst (buildFullInjection w isPreview) =
              joinWith (nl @ nl) (authorStyleParts (extension_settings w) (authorStyles w) st))
       \<and> (find (\<lambda>t. story_type.id t = selectedStoryType st) (storyTypes w) = None
            \<and> authorStyleEnabled (extension_settings w) \<and> selectedAuthorStyle st \<noteq> []
            \<and> find (\<lambda>s. author_style.id s = selectedAuthorStyle st) (authorStyles w) = Some style
            \<longrightarrow> fst (buildFullInjection w isPreview) =
                  ''<style>'' @ nl @ authorPrompt style
                  @ (case nsfwPrompt style of
                       Some nsfw \<Rightarrow> if nsfwEnabled (extension_settings w) \<and> nsfw \<noteq> []
                                    then nl @ nl @ nsfw else []
                     | None \<Rightarrow> [])
                  @ nl @ ''</style>'')
       \<and> (find (\<lambda>s. author_style.id s = selectedAuthorStyle st) (authorStyles w) = None \<longrightarrow>
            fst (buildFullInjection w isPreview) =
              joinWith (nl @ nl)
                (storyArcParts (extension_settings w) (storyTypes w) st isPreview))"
proof -
  have w1: "w1 = w\<lparr>chatMetadata := Some st\<rparr>"
    using assms(2) by (rule getChatStoryState_world)
  have full: "fst (buildFullInjection w isPreview) =
      joinWith (nl @ nl)
        (storyArcParts (extension_settings w) (storyTypes w) st isPreview
         @ authorStyleParts (extension_settings w) (authorStyles w) st)"
    using assms by (simp add: buildFullInjection_def Let_def w1)
  have story: "storyArcParts (extension_settings w) (storyTypes w) st isPreview = []"
    if "find (\<lambda>t. story_type.id t = selectedStoryType st) (storyTypes w) = None"
    using that by (simp add: storyArcParts_def)
  have style: "authorStyleParts (extension_settings w) (authorStyles w) st = []"
    if "find (\<lambda>s. author_style.id s = selectedAuthorStyle st) (authorStyles w) = None"
    using that by (simp add: authorStyleParts_def)
  show ?thesis
  proof (intro conjI impI)
    assume "find (\<lambda>t. story_type.id t = selectedStoryType st) (storyTypes w) = None"
    then show "fst (buildFullInjection w isPreview) =
              joinWith (nl @ nl) (authorStyleParts (extension_settings w) (authorStyles w) st)"
      using full story by simp
  next
    assume a: "find (\<lambda>t. story_type.id t = selectedStoryType st) (storyTypes w) = None
            \<and> authorStyleEnabled (extension_settings w) \<and> selectedAuthorStyle st \<noteq> []
            \<and> find (\<lambda>s. author_style.id s = selectedAuthorStyle st) (authorStyles w) = Some style"
    then have "authorStyleParts (extension_settings w) (authorStyles w) st =
        [''<style>'' @ nl @ authorPrompt style
                  @ (case nsfwPrompt style of
                       Some nsfw \<Rightarrow> if nsfwEnabled (extension_settings w) \<and> nsfw \<noteq> []
                                    then nl @ nl @ nsfw else []
                     | None \<Rightarrow> [])
                  @ nl @ ''</style>'']"
      by (simp add: authorStyleParts_def Let_def split: option.splits)
    then show "fst (buildFullInjection w isPreview) =
                  ''<style>'' @ nl @ authorPrompt style
                  @ (case nsfwPrompt style of
                       Some nsfw \<Rightarrow> if nsfwEnabled (extension_settings w) \<and> nsfw \<noteq> []
                                    then nl @ nl @ nsfw else []
                     | None \<Rightarrow> [])
                  @ nl @ ''</style>''"
      using full story a by simp
  next
    assume "find (\<lambda>s. author_style.id s = selectedAuthorStyle st) (authorStyles w) = None"
    then show "fst (buildFullInjection w isPreview) =
              joinWith (nl @ nl)
                (storyArcParts (extension_settings w) (storyTypes w) st isPreview)"
      using full style by simp
  qed
qed

theorem C8_dangling_ids_witness:
  "enabled (extension_settings (catalogWorld bothSettings ghostState))
   \<and> getChatStoryState (catalogWorld bothSettings ghostState)
       = (ghostState, catalogWorld bothSettings ghostState)
   \<and> selectedStoryType ghostState = ''ghost-42''
   \<and> find (\<lambda>t. story_type.id t = selectedStoryType ghostState)
        (storyTypes (catalogWorld bothSettings ghostState)) = None
   \<and> fst (buildFullInjection (catalogWorld bothSettings ghostState) False)
       = ''<style>'' @ nl @ ''Short declarative sentences.'' @ nl @ ''</style>''"
proof -
  let ?w = "catalogWorld bothSettings ghostState"
  have en: "enabled (extension_settings ?w)"
    by (simp add: catalogWorld_def bothSettings_def arcSettings_def defaultSettings_def)
  have g: "getChatStoryState ?w = (ghostState, ?w)"
    by (simp add: catalogWorld_def)
  have dangling: "find (\<lambda>t. story_type.id t = selectedStoryType ghostState) (storyTypes ?w) = None"
    by (simp add: catalogWorld_def ghostState_def arcState_def noirType_def)
  have found: "authorStyleEnabled (extension_settings ?w) \<and> selectedAuthorStyle ghostState \<noteq> []
      \<and> find (\<lambda>s. author_style.id s = selectedAuthorStyle ghostState) (authorStyles ?w) = Some terseStyle"
    by (simp add: catalogWorld_def ghostState_def arcState_def terseStyle_def bothSettings_def
          arcSettings_def defaultSettings_def)
  have sel: "selectedStoryType ghostState = ''ghost-42''"
    by (simp add: ghostState_def)
  have "fst (buildFullInjection ?w False) =
      ''<style>'' @ nl @ authorPrompt terseStyle
        @ (case nsfwPrompt terseStyle of
             Some nsfw \<Rightarrow> if nsfwEnabled (extension_settings ?w) \<and> nsfw \<noteq> []
                          then nl @ nl @ nsfw else []
           | None \<Rightarrow> [])
        @ nl @ ''</style>''"
    using C8_dangling_ids [OF en g, where style = terseStyle and isPreview = False] dangling found
    by blast
  then show ?thesis
    using en g dangling sel by (simp add: terseStyle_def)
qed

end
